theory Spec2Isabelle
  imports Main "HOL-Library.Sublist"
begin

section \<open>The framing layer of \<open>lsp::Connection\<close> (src/lsp/connection.cpp)\<close>

text \<open>
  The theory embeds \<^verbatim>\<open>src/lsp/connection.cpp\<close>: the header codec
  (\<^verbatim>\<open>readMessageHeader\<close>, \<^verbatim>\<open>readNextMessageHeaderField\<close>,
  \<^verbatim>\<open>writeMessageHeader\<close>), the receive path (\<^verbatim>\<open>receiveMessage\<close>) and the
  send path (\<^verbatim>\<open>sendMessage\<close>, \<^verbatim>\<open>sendMessageBatch\<close>, \<^verbatim>\<open>writeJsonMessage\<close>,
  \<^verbatim>\<open>writeMessage\<close>).

  Modelling decisions.
  \<^item> A byte is a \<open>char\<close>, a \<^verbatim>\<open>std::string\<close> or \<^verbatim>\<open>std::string_view\<close> is a
    \<open>string\<close>.
  \<^item> The input stream is the list of bytes that are still unread. A \<^verbatim>\<open>std::istream\<close>
    sets \<^verbatim>\<open>eofbit\<close> or \<^verbatim>\<open>failbit\<close> only when an extraction reaches the end of
    the input; from then on no byte is left, and \<^verbatim>\<open>peek\<close>, \<^verbatim>\<open>get\<close>,
    \<^verbatim>\<open>getline\<close> and \<^verbatim>\<open>read\<close> answer on a stream with these flags exactly as
    they answer on an exhausted stream without them (end of file, nothing extracted).
    The flags are therefore not part of the state. The stream's exception mask is
    the default one (no exception from the stream itself).
  \<^item> The output stream records every byte written, in order, and how many of them
    a \<^verbatim>\<open>flush\<close> has pushed out.
  \<^item> Every \<^verbatim>\<open>throw\<close> and every failing \<^verbatim>\<open>assert\<close> is a value \<open>Inl e\<close>; the
    stream is returned in both cases, so that its position after an error can be
    stated. Assertions are modelled as enabled (no \<^verbatim>\<open>NDEBUG\<close>).
  \<^item> \<^verbatim>\<open>std::size_t\<close> is 64 bits wide. Lengths are natural numbers; the only place
    where the width matters is \<^verbatim>\<open>std::from_chars\<close>, which rejects a number above
    \<open>SIZE_MAX\<close>, and the bound is written out there.
  \<^item> \<^verbatim>\<open>content.resize\<close> asks for as many bytes as the header declares, which
    a few bytes of input can make as large as \<open>SIZE_MAX\<close>. Whether it succeeds
    depends on the implementation (\<^verbatim>\<open>max_size()\<close>) and on the memory left; both
    are parameters of \<^verbatim>\<open>receiveMessage\<close>, and the two exceptions of
    \<^verbatim>\<open>resize\<close> are failures of the call. No \<^verbatim>\<open>max_size()\<close> exceeds
    \<^verbatim>\<open>PTRDIFF_MAX\<close>, so the cast to \<^verbatim>\<open>std::streamsize\<close> keeps every length that
    reaches the read. The other strings of the code are not longer than the input
    received so far, and their allocation is taken to succeed.
  \<^item> The JSON codec and the JSON-RPC message model are external: they are parameters
    of the functions that call them. The mutex is not modelled: the embedding is
    sequential.
\<close>

subsection \<open>Characters and the library functions the code calls\<close>

abbreviation CR :: char where "CR \<equiv> CHR 0x0D"
abbreviation LF :: char where "LF \<equiv> CHR 0x0A"

text \<open>\<^verbatim>\<open>std::isspace\<close> in the "C" locale: space, \<^verbatim>\<open>\t \n \v \f \r\<close>.\<close>

definition isspace :: "char \<Rightarrow> bool" where
  "isspace c \<longleftrightarrow> c \<in> set [CHR 0x20, CHR 0x09, LF, CHR 0x0B, CHR 0x0C, CR]"

text \<open>
  Modelled from the spec: \<^verbatim>\<open>util::str::trimView\<close> is declared in
  \<^verbatim>\<open>lsp/util/str.h\<close>, which is not among the sources. The specification only says
  that names and values are "trimmed"; the model removes the white space
  (\<open>isspace\<close>) at both ends of the view.
\<close>

definition trimView :: "string \<Rightarrow> string" where
  "trimView str = rev (dropWhile isspace (rev (dropWhile isspace str)))"

text \<open>\<^verbatim>\<open>std::string_view::find(char)\<close>: the first index of the character, \<open>None\<close> for \<^verbatim>\<open>npos\<close>.\<close>

fun find_char :: "char \<Rightarrow> string \<Rightarrow> nat option" where
  "find_char c [] = None"
| "find_char c (x # xs) = (if x = c then Some 0 else map_option Suc (find_char c xs))"

text \<open>\<^verbatim>\<open>std::string_view::find(string_view)\<close>: the first index where the key occurs.\<close>

fun find_str :: "string \<Rightarrow> string \<Rightarrow> nat option" where
  "find_str k [] = (if k = [] then Some 0 else None)"
| "find_str k (x # xs) = (if prefix k (x # xs) then Some 0 else map_option Suc (find_str k xs))"

text \<open>\<^verbatim>\<open>str.substr(0, n)\<close> where \<open>n\<close> is the result of a \<^verbatim>\<open>find\<close>: the whole view for \<^verbatim>\<open>npos\<close>.\<close>

definition substr_upto :: "string \<Rightarrow> nat option \<Rightarrow> string" where
  "substr_upto str n = (case n of None \<Rightarrow> str | Some j \<Rightarrow> take j str)"

definition SIZE_MAX :: nat where
  "SIZE_MAX = 2 ^ 64 - 1"

definition is_digit :: "char \<Rightarrow> bool" where
  "is_digit c \<longleftrightarrow> c \<in> set ''0123456789''"

definition digit_value :: "char \<Rightarrow> nat" where
  "digit_value c = of_char c - 48"

definition decimal_value :: "string \<Rightarrow> nat" where
  "decimal_value ds = foldl (\<lambda>acc c. 10 * acc + digit_value c) 0 ds"

text \<open>
  \<^verbatim>\<open>std::from_chars(first, last, value)\<close> for \<^verbatim>\<open>std::size_t\<close> in base 10: the
  pattern is the longest leading run of decimal digits (no white space, no sign
  for an unsigned type). \<open>None\<close> stands for both errors, on which the
  referenced value is left unmodified: no digit at all
  (\<^verbatim>\<open>errc::invalid_argument\<close>) and a number that does not fit
  (\<^verbatim>\<open>errc::result_out_of_range\<close>). Characters after the digits are not an error.
\<close>

definition from_chars :: "string \<Rightarrow> nat option" where
  "from_chars str =
     (let ds = takeWhile is_digit str in
      if ds = [] then None
      else if SIZE_MAX < decimal_value ds then None
      else Some (decimal_value ds))"

definition digit_char :: "nat \<Rightarrow> char" where
  "digit_char d = ''0123456789'' ! (d mod 10)"

text \<open>\<^verbatim>\<open>std::to_string\<close> of an unsigned value: its decimal digits, no leading zero.\<close>

function to_string :: "nat \<Rightarrow> string" where
  "to_string n = (if n < 10 then [digit_char n] else to_string (n div 10) @ [digit_char (n mod 10)])"
  by pat_completeness auto
termination
  by (relation "measure id") auto

declare to_string.simps [simp del]

subsection \<open>The input stream\<close>

type_synonym istream = string

text \<open>\<^verbatim>\<open>m_in.peek()\<close>: the next byte, not extracted; \<open>None\<close> is \<^verbatim>\<open>eof()\<close>.\<close>

definition peek :: "istream \<Rightarrow> char option" where
  "peek s = (case s of [] \<Rightarrow> None | c # _ \<Rightarrow> Some c)"

text \<open>\<^verbatim>\<open>m_in.get()\<close> with the result dropped: one byte is extracted, if there is one.\<close>

definition get :: "istream \<Rightarrow> istream" where
  "get s = drop 1 s"

text \<open>
  \<^verbatim>\<open>std::getline(m_in, lineData)\<close>: the bytes up to the first line feed, which is
  extracted and not stored; the rest of the input when there is no line feed.
\<close>

definition getline :: "istream \<Rightarrow> string \<times> istream" where
  "getline s = (takeWhile (\<lambda>c. c \<noteq> LF) s, drop 1 (dropWhile (\<lambda>c. c \<noteq> LF) s))"

text \<open>
  \<^verbatim>\<open>m_in.read(&content[0], n)\<close> on a buffer of \<open>n\<close> bytes: the next \<open>n\<close> bytes of
  the stream, or all that are left when they are fewer, overwrite the front of
  the buffer. A short read raises nothing.
\<close>

definition read_bytes :: "string \<Rightarrow> nat \<Rightarrow> istream \<Rightarrow> string \<times> istream" where
  "read_bytes buf n s = (take n s @ drop (length (take n s)) buf, drop n s)"

subsection \<open>Headers and errors\<close>

record MessageHeader =
  contentLength :: nat
  contentType :: string

text \<open>
  Modelled from the spec: the member initialisers of \<^verbatim>\<open>MessageHeader\<close> are in
  \<^verbatim>\<open>connection.h\<close>, which is not among the sources. By the specification the
  content type "defaults to a fixed MIME value naming the protocol's payload type
  and utf-8 charset"; the length starts at zero.
\<close>

definition default_contentType :: string where
  "default_contentType = ''application/vscode-jsonrpc; charset=utf-8''"

definition default_header :: MessageHeader where
  "default_header = \<lparr>contentLength = 0, contentType = default_contentType\<rparr>"

text \<open>
  What a call can raise: the two exceptions of this layer with their message, a
  failed \<^verbatim>\<open>assert\<close> with its expression, \<^verbatim>\<open>std::length_error\<close> and
  \<^verbatim>\<open>std::bad_alloc\<close> from \<^verbatim>\<open>content.resize\<close>, and whatever the external JSON
  codec or message model throws, passed on unchanged.
\<close>

datatype 'x failure =
    ConnectionError string
  | ProtocolError string
  | AssertionFailure string
  | LengthError
  | BadAlloc
  | Foreign 'x

text \<open>
  What decides whether an allocation succeeds: \<^verbatim>\<open>std::string::max_size()\<close> of
  the implementation, and the number of bytes the allocator can still grant.
\<close>

record memory =
  max_size :: nat
  available :: nat

text \<open>
  \<^verbatim>\<open>content.resize(n)\<close> on the empty string \<^verbatim>\<open>content\<close>: \<^verbatim>\<open>std::length_error\<close>
  above \<^verbatim>\<open>max_size()\<close>, \<^verbatim>\<open>std::bad_alloc\<close> when the memory does not suffice,
  and \<open>n\<close> zero bytes otherwise.
\<close>

definition resize :: "memory \<Rightarrow> nat \<Rightarrow> 'x failure + string" where
  "resize mem n =
     (if max_size mem < n then Inl LengthError
      else if available mem < n then Inl BadAlloc
      else Inr (replicate n (CHR 0x00)))"

subsection \<open>The header codec: parsing\<close>

definition readNextMessageHeaderField ::
  "MessageHeader \<Rightarrow> istream \<Rightarrow> ('x failure + MessageHeader) \<times> istream" where
  "readNextMessageHeaderField header s =
     (if peek s = None then (Inl (ConnectionError ''Connection lost''), s)
      else
        let (line, s') = getline s in
        (case find_char (CHR '':'') line of
           None \<Rightarrow> (Inr header, s')
         | Some separatorIdx \<Rightarrow>
             let key = trimView (take separatorIdx line);
                 val = trimView (drop (separatorIdx + 1) line)
             in if key = ''Content-Length'' then
                  (Inr (case from_chars val of
                          None \<Rightarrow> header
                        | Some n \<Rightarrow> header\<lparr>contentLength := n\<rparr>), s')
                else if key = ''Content-Type'' then
                  (Inr (header\<lparr>contentType := val\<rparr>), s')
                else (Inr header, s')))"

lemma getline_shorter: "s \<noteq> [] \<Longrightarrow> length (snd (getline s)) < length s"
proof -
  assume ne: "s \<noteq> []"
  have a: "length (dropWhile (\<lambda>c. c \<noteq> LF) s) \<le> length s"
    by (rule length_dropWhile_le)
  have b: "0 < length s"
    using ne by simp
  have "length (snd (getline s)) = length (dropWhile (\<lambda>c. c \<noteq> LF) s) - 1"
    by (simp add: getline_def)
  with a b show ?thesis
    by arith
qed

lemma field_eof:
  "readNextMessageHeaderField header [] = (Inl (ConnectionError ''Connection lost''), [])"
  by (simp add: readNextMessageHeaderField_def peek_def)

lemma field_rest:
  "s \<noteq> [] \<Longrightarrow> snd (readNextMessageHeaderField header s) = snd (getline s)"
  by (simp add: readNextMessageHeaderField_def peek_def Let_def
           split: list.splits option.splits prod.splits)

lemma field_consumes:
  assumes "readNextMessageHeaderField header s = (Inr header' :: 'x failure + MessageHeader, s')"
  shows "length s' < length s"
proof -
  from assms have ne: "s \<noteq> []"
    by (auto simp: field_eof)
  have "snd (readNextMessageHeaderField header s :: ('x failure + MessageHeader) \<times> istream)
          = snd (getline s)"
    by (rule field_rest [OF ne])
  with assms have "s' = snd (getline s)"
    by simp
  with getline_shorter [OF ne] show ?thesis by simp
qed

text \<open>
  The loop of \<^verbatim>\<open>readMessageHeader\<close>:
  \<^verbatim>\<open>while(m_in.peek() != '\r') readNextMessageHeaderField(header);\<close>
\<close>

function header_loop ::
  "MessageHeader \<Rightarrow> istream \<Rightarrow> ('x failure + MessageHeader) \<times> istream" where
  "header_loop header s =
     (if peek s = Some CR then (Inr header, s)
      else (case readNextMessageHeaderField header s of
              (Inl e, s') \<Rightarrow> (Inl e, s')
            | (Inr header', s') \<Rightarrow> header_loop header' s'))"
  by pat_completeness auto
termination
  apply (relation "measure (\<lambda>(header, s). length s)")
   apply simp
  apply (simp only: in_measure prod.case)
  apply (erule field_consumes [OF sym])
  done

declare header_loop.simps [simp del]

definition readMessageHeader :: "istream \<Rightarrow> ('x failure + MessageHeader) \<times> istream" where
  "readMessageHeader s =
     (case header_loop default_header s of
        (Inl e, s1) \<Rightarrow> (Inl e, s1)
      | (Inr header, s1) \<Rightarrow>
          let s2 = get s1 in
          if peek s2 \<noteq> Some LF then (Inl (ProtocolError ''Invalid message header format''), s2)
          else (Inr header, get s2))"

subsection \<open>The receive path\<close>

text \<open>
  Lines 27 to 39 of \<^verbatim>\<open>receiveMessage\<close>, the checks made on the content type
  once the body has been read.
\<close>

definition checkContentType :: "string \<Rightarrow> 'x failure + unit" where
  "checkContentType ctype =
     (if \<not> prefix ''application/vscode-jsonrpc'' ctype then
        Inl (ProtocolError (''Unsupported or invalid content type: '' @ ctype))
      else
        (case find_str ''charset='' ctype of
           None \<Rightarrow> Inr ()
         | Some idx \<Rightarrow>
             let charset = drop (idx + length ''charset='') ctype;
                 charset = trimView (substr_upto charset (find_char (CHR '';'') charset))
             in if charset \<noteq> ''utf-8'' \<and> charset \<noteq> ''utf8'' then
                  Inl (ProtocolError (''Unsupported or invalid character encoding: '' @ charset))
                else Inr ()))"

text \<open>
  \<^verbatim>\<open>jsonrpc::messageFromJson(json::parse(content))\<close>: both functions are external
  and may throw; what they throw leaves \<^verbatim>\<open>receiveMessage\<close> as it is.
\<close>

definition decode ::
  "(string \<Rightarrow> 'x + 'j) \<Rightarrow> ('j \<Rightarrow> 'x + 'r) \<Rightarrow> string \<Rightarrow> 'x failure + 'r" where
  "decode parse messageFromJson content =
     (case parse content of
        Inl x \<Rightarrow> Inl (Foreign x)
      | Inr j \<Rightarrow> (case messageFromJson j of Inl x \<Rightarrow> Inl (Foreign x) | Inr r \<Rightarrow> Inr r))"

text \<open>
  \<^verbatim>\<open>receiveMessage\<close>. An exception of \<^verbatim>\<open>content.resize\<close> leaves the call before
  the read, with the body still in the stream.
\<close>

definition receiveMessage ::
  "memory \<Rightarrow> (string \<Rightarrow> 'x + 'j) \<Rightarrow> ('j \<Rightarrow> 'x + 'r) \<Rightarrow> istream
     \<Rightarrow> ('x failure + 'r) \<times> istream" where
  "receiveMessage mem parse messageFromJson s =
     (if peek s = None then (Inl (ConnectionError ''Connection lost''), s)
      else
        (case readMessageHeader s of
           (Inl e, s1) \<Rightarrow> (Inl e, s1)
         | (Inr header, s1) \<Rightarrow>
             (case resize mem (contentLength header) of
                Inl e \<Rightarrow> (Inl e, s1)
              | Inr content \<Rightarrow>
                  let (content, s2) = read_bytes content (contentLength header) s1 in
                  (case checkContentType (contentType header) of
                     Inl e \<Rightarrow> (Inl e, s2)
                   | Inr _ \<Rightarrow> (decode parse messageFromJson content, s2)))))"

subsection \<open>The output stream and the send path\<close>

record ostream =
  written :: string
  flushed :: nat

text \<open>\<^verbatim>\<open>m_out.write(data, n)\<close> and \<^verbatim>\<open>m_out.flush()\<close>.\<close>

definition write_bytes :: "ostream \<Rightarrow> string \<Rightarrow> ostream" where
  "write_bytes out bytes = out\<lparr>written := written out @ bytes\<rparr>"

definition flush :: "ostream \<Rightarrow> ostream" where
  "flush out = out\<lparr>flushed := length (written out)\<rparr>"

definition writeMessageHeader ::
  "MessageHeader \<Rightarrow> ostream \<Rightarrow> ('x failure + unit) \<times> ostream" where
  "writeMessageHeader header out =
     (if \<not> 0 < contentLength header then
        (Inl (AssertionFailure ''header.contentLength > 0''), out)
      else if contentType header = [] then
        (Inl (AssertionFailure ''!header.contentType.empty()''), out)
      else
        let headerStr = ''Content-Length: '' @ to_string (contentLength header) @ [CR, LF, CR, LF]
        in (Inr (), write_bytes out headerStr))"

definition writeMessage :: "string \<Rightarrow> ostream \<Rightarrow> ('x failure + unit) \<times> ostream" where
  "writeMessage content out =
     (let header = \<lparr>contentLength = length content, contentType = default_contentType\<rparr> in
      case writeMessageHeader header out of
        (Inl e, out') \<Rightarrow> (Inl e, out')
      | (Inr _, out') \<Rightarrow> (Inr (), flush (write_bytes out' content)))"

definition writeJsonMessage ::
  "('j \<Rightarrow> string) \<Rightarrow> 'j \<Rightarrow> ostream \<Rightarrow> ('x failure + unit) \<times> ostream" where
  "writeJsonMessage stringify content out =
     (let contentStr = stringify content in
      if contentStr = [] then (Inl (AssertionFailure ''!contentStr.empty()''), out)
      else writeMessage contentStr out)"

definition sendMessage ::
  "('m \<Rightarrow> 'j) \<Rightarrow> ('j \<Rightarrow> string) \<Rightarrow> 'm \<Rightarrow> ostream \<Rightarrow> ('x failure + unit) \<times> ostream" where
  "sendMessage toJson stringify message out = writeJsonMessage stringify (toJson message) out"

text \<open>
  \<^verbatim>\<open>sendMessageBatch\<close> pushes the JSON value of every message, in order, into
  a \<^verbatim>\<open>json::Array\<close>; \<open>array\<close> is the external injection of such an array into
  \<^verbatim>\<open>json::Any\<close>.
\<close>

definition sendMessageBatch ::
  "('m \<Rightarrow> 'j) \<Rightarrow> ('j list \<Rightarrow> 'j) \<Rightarrow> ('j \<Rightarrow> string) \<Rightarrow> 'm list \<Rightarrow> ostream
     \<Rightarrow> ('x failure + unit) \<times> ostream" where
  "sendMessageBatch toJson array stringify batch out =
     writeJsonMessage stringify (array (map toJson batch)) out"

section \<open>Notions used to state the properties\<close>

text \<open>
  The memory of the examples: the \<^verbatim>\<open>max_size()\<close> of a common 64-bit
  implementation, \<open>2\<^sup>6\<^sup>2 - 1\<close>, and one mebibyte that can be allocated.
\<close>

definition small_machine :: memory where
  "small_machine = \<lparr>max_size = 4611686018427387903, available = 1048576\<rparr>"

text \<open>
  The wire format of one message as the specification gives it for outgoing
  messages: the text \<^verbatim>\<open>Content-Length: \<close>, the decimal length of the body, two
  CR LF pairs, then the body; no \<^verbatim>\<open>Content-Type\<close> line.
\<close>

definition wire_frame :: "string \<Rightarrow> string" where
  "wire_frame body = ''Content-Length: '' @ to_string (length body) @ [CR, LF, CR, LF] @ body"

text \<open>
  The lines of the input, split at every line feed, and the property that the
  input ends before a header terminator: none of its lines begins with the
  carriage return that closes a header block.
\<close>

fun lines_of :: "string \<Rightarrow> string list" where
  "lines_of [] = [[]]"
| "lines_of (c # cs) =
     (if c = LF then [] # lines_of cs
      else (case lines_of cs of [] \<Rightarrow> [[c]] | l # ls \<Rightarrow> (c # l) # ls))"

definition runs_out_in_header :: "string \<Rightarrow> bool" where
  "runs_out_in_header s \<longleftrightarrow> list_all (\<lambda>l. \<not> prefix [CR] l) (lines_of s)"

text \<open>The name of the field on a header line: the trimmed text before its first colon.\<close>

definition field_name :: "string \<Rightarrow> string option" where
  "field_name line = map_option (\<lambda>i. trimView (take i line)) (find_char (CHR '':'') line)"

text \<open>
  The lines of the header block: the lines of the input in front of the first
  one that begins with a carriage return.
\<close>

definition header_lines :: "string \<Rightarrow> string list" where
  "header_lines s = takeWhile (\<lambda>l. \<not> prefix [CR] l) (lines_of s)"

section \<open>Lemmas about the library functions\<close>

subsection \<open>Decimal numbers: \<open>to_string\<close> and \<open>from_chars\<close>\<close>

lemma below_ten_cases:
  "(d::nat) < 10 \<Longrightarrow> d = 0 \<or> d = 1 \<or> d = 2 \<or> d = 3 \<or> d = 4 \<or> d = 5 \<or> d = 6 \<or> d = 7 \<or> d = 8 \<or> d = 9"
  by arith

lemma digit_char_is_digit: "is_digit (digit_char d)"
proof -
  have "d mod 10 < 10" by simp
  from below_ten_cases [OF this] show ?thesis
    by (auto simp: digit_char_def is_digit_def)
qed

lemma digit_value_digit_char: "digit_value (digit_char d) = d mod 10"
proof -
  have "d mod 10 < 10" by simp
  from below_ten_cases [OF this] show ?thesis
    by (auto simp: digit_char_def digit_value_def)
qed

lemma decimal_value_snoc:
  "decimal_value (ds @ [c]) = 10 * decimal_value ds + digit_value c"
  by (simp add: decimal_value_def)

lemma to_string_nonempty: "to_string n \<noteq> []"
  by (subst to_string.simps) simp

lemma to_string_digits: "\<forall>c \<in> set (to_string n). is_digit c"
proof (induction n rule: to_string.induct)
  case (1 n)
  show ?case
  proof (cases "n < 10")
    case True
    then show ?thesis
      by (subst to_string.simps) (simp add: digit_char_is_digit)
  next
    case False
    with 1 show ?thesis
      by (subst to_string.simps) (simp add: digit_char_is_digit)
  qed
qed

lemma decimal_value_to_string: "decimal_value (to_string n) = n"
proof (induction n rule: to_string.induct)
  case (1 n)
  show ?case
  proof (cases "n < 10")
    case True
    then show ?thesis
      by (subst to_string.simps) (simp add: decimal_value_def digit_value_digit_char)
  next
    case False
    with 1 have "decimal_value (to_string (n div 10)) = n div 10"
      by simp
    with False show ?thesis
      by (subst to_string.simps) (simp add: decimal_value_snoc digit_value_digit_char)
  qed
qed

lemma to_string_small: "n < 10 \<Longrightarrow> to_string n = [digit_char n]"
  by (subst to_string.simps) simp

lemma from_chars_to_string:
  assumes "n \<le> SIZE_MAX" and "rest = [] \<or> \<not> is_digit (hd rest)"
  shows "from_chars (to_string n @ rest) = Some n"
proof -
  have "takeWhile is_digit rest = []"
    using assms(2) by (cases rest) auto
  then have "takeWhile is_digit (to_string n @ rest) = to_string n"
    using to_string_digits [of n] by (simp add: takeWhile_append2)
  with assms(1) show ?thesis
    by (simp add: from_chars_def Let_def to_string_nonempty decimal_value_to_string)
qed

lemma from_chars_digits:
  assumes "ds \<noteq> []" and "\<forall>c \<in> set ds. is_digit c" and "decimal_value ds \<le> SIZE_MAX"
  shows "from_chars ds = Some (decimal_value ds)"
proof -
  from assms(2) have tw: "takeWhile is_digit ds = ds"
    by simp
  show ?thesis
    unfolding from_chars_def Let_def tw using assms(1,3) by simp
qed

lemma from_chars_fails:
  assumes "v = [] \<or> \<not> is_digit (hd v) \<or> SIZE_MAX < decimal_value (takeWhile is_digit v)"
  shows "from_chars v = None"
proof (cases "takeWhile is_digit v = []")
  case True
  then show ?thesis
    by (simp add: from_chars_def)
next
  case False
  then have "v \<noteq> []" "is_digit (hd v)"
    by (cases v; auto split: if_splits)+
  with assms have "SIZE_MAX < decimal_value (takeWhile is_digit v)"
    by simp
  then show ?thesis
    by (simp add: from_chars_def Let_def)
qed

lemma digit_not_space: "is_digit c \<Longrightarrow> \<not> isspace c"
  by (auto simp: is_digit_def isspace_def)

lemma digit_not_LF: "is_digit c \<Longrightarrow> c \<noteq> LF"
  by (auto simp: is_digit_def)

subsection \<open>Trimming\<close>

lemma trimView_core:
  assumes l: "\<forall>c \<in> set l. isspace c" and r: "\<forall>c \<in> set r. isspace c"
    and core: "core = [] \<or> (\<not> isspace (hd core) \<and> \<not> isspace (last core))"
  shows "trimView (l @ core @ r) = core"
proof (cases "core = []")
  case True
  with l r show ?thesis
    by (auto simp: trimView_def dropWhile_append2 dest: set_dropWhileD)
next
  case False
  with core have h: "\<not> isspace (hd core)" and t: "\<not> isspace (last core)"
    by auto
  from False h have "dropWhile isspace (core @ r) = core @ r"
    by (cases core) auto
  with l have a: "dropWhile isspace (l @ core @ r) = core @ r"
    by (simp add: dropWhile_append2)
  from False t have b: "dropWhile isspace (rev core) = rev core"
    by (cases core rule: rev_cases) auto
  have c: "dropWhile isspace (rev r @ rev core) = dropWhile isspace (rev core)"
    using r by (intro dropWhile_append2) simp
  show ?thesis
    by (simp only: trimView_def a rev_append b c rev_rev_ident)
qed

lemma trimView_to_string:
  assumes "\<forall>c \<in> set l. isspace c" and "\<forall>c \<in> set r. isspace c"
  shows "trimView (l @ to_string n @ r) = to_string n"
proof (rule trimView_core [OF assms])
  have "hd (to_string n) \<in> set (to_string n)" "last (to_string n) \<in> set (to_string n)"
    using to_string_nonempty [of n] by simp_all
  with to_string_digits [of n] show
    "to_string n = [] \<or> (\<not> isspace (hd (to_string n)) \<and> \<not> isspace (last (to_string n)))"
    by (auto dest: digit_not_space)
qed

subsection \<open>Lines and searching\<close>

lemma getline_line: "LF \<notin> set line \<Longrightarrow> getline (line @ LF # rest) = (line, rest)"
proof -
  assume "LF \<notin> set line"
  then have a: "\<And>c. c \<in> set line \<Longrightarrow> c \<noteq> LF"
    by auto
  have "takeWhile (\<lambda>c. c \<noteq> LF) (line @ LF # rest) = line @ takeWhile (\<lambda>c. c \<noteq> LF) (LF # rest)"
    by (rule takeWhile_append2) (rule a)
  moreover
  have "dropWhile (\<lambda>c. c \<noteq> LF) (line @ LF # rest) = dropWhile (\<lambda>c. c \<noteq> LF) (LF # rest)"
    by (rule dropWhile_append2) (rule a)
  ultimately show ?thesis
    by (simp add: getline_def)
qed

lemma getline_last: "LF \<notin> set line \<Longrightarrow> getline line = (line, [])"
proof -
  assume "LF \<notin> set line"
  then have "\<forall>c \<in> set line. c \<noteq> LF"
    by auto
  then have "takeWhile (\<lambda>c. c \<noteq> LF) line = line" "dropWhile (\<lambda>c. c \<noteq> LF) line = []"
    by simp_all
  then show ?thesis
    by (simp only: getline_def drop_Nil)
qed

lemma find_char_absent: "c \<notin> set str \<Longrightarrow> find_char c str = None"
  by (induction str) auto

lemma find_char_first: "c \<notin> set pre \<Longrightarrow> find_char c (pre @ c # post) = Some (length pre)"
  by (induction pre) auto

lemma lines_of_nonempty: "lines_of s \<noteq> []"
  by (induction s) (auto split: list.splits)

lemma lines_of_line: "LF \<notin> set l \<Longrightarrow> lines_of (l @ LF # r) = l # lines_of r"
  by (induction l) (auto split: list.splits)

lemma lines_of_last: "LF \<notin> set l \<Longrightarrow> lines_of l = [l]"
  by (induction l) (auto split: list.splits)

lemma lines_of_append: "lines_of (a @ LF # b) = lines_of a @ lines_of b"
proof (induction a)
  case Nil
  show ?case by simp
next
  case (Cons c a)
  obtain l ls where "lines_of a = l # ls"
    using lines_of_nonempty [of a] by (cases "lines_of a") auto
  with Cons show ?case
    by simp
qed

lemma lines_of_getline:
  "lines_of s = fst (getline s) # (if LF \<in> set s then lines_of (snd (getline s)) else [])"
proof (cases "LF \<in> set s")
  case False
  then show ?thesis
    by (simp add: lines_of_last getline_last)
next
  case True
  then obtain l r where s: "s = l @ LF # r" and l: "LF \<notin> set l"
    by (auto dest: split_list_first)
  with True show ?thesis
    by (simp add: lines_of_line getline_line del: append.simps)
qed

section \<open>Lemmas about the header codec\<close>

text \<open>
  One call of \<^verbatim>\<open>readNextMessageHeaderField\<close> on a stream that starts with the
  line \<open>name:val\<close>, ended by a line feed. (The carriage return of a CR LF line
  end is the last byte of \<open>val\<close>; trimming removes it.)
\<close>

lemma field_with_colon:
  assumes "CHR '':'' \<notin> set name" and "LF \<notin> set name" and "LF \<notin> set val"
  shows "(readNextMessageHeaderField header (name @ CHR '':'' # val @ LF # rest)
            :: ('x failure + MessageHeader) \<times> istream) =
           (Inr (if trimView name = ''Content-Length'' then
                   (case from_chars (trimView val) of
                      None \<Rightarrow> header
                    | Some n \<Rightarrow> header\<lparr>contentLength := n\<rparr>)
                 else if trimView name = ''Content-Type'' then header\<lparr>contentType := trimView val\<rparr>
                 else header), rest)"
proof -
  let ?line = "name @ CHR '':'' # val"
  have nl: "LF \<notin> set ?line"
    using assms by simp
  have "name @ CHR '':'' # val @ LF # rest = ?line @ LF # rest"
    by simp
  then have g: "getline (name @ CHR '':'' # val @ LF # rest) = (?line, rest)"
    using getline_line [OF nl, of rest] by simp
  have f: "find_char (CHR '':'') ?line = Some (length name)"
    by (rule find_char_first [OF assms(1)])
  have p: "peek (name @ CHR '':'' # val @ LF # rest) \<noteq> None"
    by (cases name) (simp_all add: peek_def)
  show ?thesis
    by (simp add: readNextMessageHeaderField_def p g f Let_def)
qed

lemma field_without_colon:
  assumes "CHR '':'' \<notin> set line" and "LF \<notin> set line"
  shows "(readNextMessageHeaderField header (line @ LF # rest)
            :: ('x failure + MessageHeader) \<times> istream) = (Inr header, rest)"
proof -
  have p: "peek (line @ LF # rest) \<noteq> None"
    by (cases line) (simp_all add: peek_def)
  show ?thesis
    by (simp add: readNextMessageHeaderField_def p getline_line [OF assms(2)]
          find_char_absent [OF assms(1)])
qed

lemma field_nonempty:
  "s \<noteq> [] \<Longrightarrow>
   \<exists>header'. (readNextMessageHeaderField header s :: ('x failure + MessageHeader) \<times> istream)
                = (Inr header', snd (getline s))"
  by (simp add: readNextMessageHeaderField_def peek_def Let_def
        split: list.splits option.splits prod.splits)

lemma header_loop_CR: "header_loop header (CR # s) = (Inr header, CR # s)"
  by (subst header_loop.simps) (simp add: peek_def)

lemma header_loop_eof:
  "header_loop header [] = (Inl (ConnectionError ''Connection lost''), [])"
  by (subst header_loop.simps) (simp add: peek_def field_eof)

lemma header_loop_field:
  "c \<noteq> CR \<Longrightarrow>
   header_loop header (c # s) =
     (case readNextMessageHeaderField header (c # s) of
        (Inl e, s') \<Rightarrow> (Inl e, s')
      | (Inr header', s') \<Rightarrow> header_loop header' s')"
  by (subst header_loop.simps) (simp add: peek_def)

lemma runs_out_step:
  assumes "s \<noteq> []" and "hd s \<noteq> CR"
  shows "runs_out_in_header s \<longleftrightarrow> runs_out_in_header (snd (getline s))"
proof -
  from assms have first: "\<not> prefix [CR] (fst (getline s))"
    by (cases s) (auto simp: getline_def)
  show ?thesis
  proof (cases "LF \<in> set s")
    case True
    with first show ?thesis
      by (subst runs_out_in_header_def, subst lines_of_getline)
         (simp add: runs_out_in_header_def)
  next
    case False
    then have "snd (getline s) = []"
      by (simp add: getline_last)
    with first False show ?thesis
      by (subst runs_out_in_header_def, subst lines_of_getline)
         (simp add: runs_out_in_header_def)
  qed
qed

lemma header_loop_cases:
  fixes header :: MessageHeader and s :: istream
  shows "(\<exists>header' r. (header_loop header s :: ('x failure + MessageHeader) \<times> istream)
                          = (Inr header', CR # r) \<and> \<not> runs_out_in_header s)
       \<or> ((header_loop header s :: ('x failure + MessageHeader) \<times> istream)
             = (Inl (ConnectionError ''Connection lost''), []) \<and> runs_out_in_header s)"
proof (induction s arbitrary: header rule: length_induct)
  case (1 s)
  show ?case
  proof (cases s)
    case Nil
    then show ?thesis
      by (simp add: header_loop_eof runs_out_in_header_def)
  next
    case (Cons c cs)
    show ?thesis
    proof (cases "c = CR")
      case True
      with Cons show ?thesis
        by (simp add: header_loop_CR runs_out_in_header_def split: list.splits)
    next
      case False
      from Cons obtain header' where
        f: "(readNextMessageHeaderField header s :: ('x failure + MessageHeader) \<times> istream)
              = (Inr header', snd (getline s))"
        using field_nonempty [of s header] by auto
      have loop: "(header_loop header s :: ('x failure + MessageHeader) \<times> istream)
                    = header_loop header' (snd (getline s))"
        using Cons False f by (simp add: header_loop_field)
      have step: "runs_out_in_header s \<longleftrightarrow> runs_out_in_header (snd (getline s))"
        using Cons False by (intro runs_out_step) simp_all
      have "length (snd (getline s)) < length s"
        using Cons by (intro getline_shorter) simp
      with "1.IH" show ?thesis
        unfolding loop step by blast
    qed
  qed
qed

text \<open>
  What \<open>runs_out_in_header\<close> says, without the list of lines: no carriage return
  stands at the start of the input or right after a line feed.
\<close>

lemma runs_out_in_header_iff:
  "runs_out_in_header s \<longleftrightarrow>
     \<not> (\<exists>pre post. s = pre @ CR # post \<and> (pre = [] \<or> last pre = LF))"
proof
  assume r: "runs_out_in_header s"
  show "\<not> (\<exists>pre post. s = pre @ CR # post \<and> (pre = [] \<or> last pre = LF))"
  proof
    assume "\<exists>pre post. s = pre @ CR # post \<and> (pre = [] \<or> last pre = LF)"
    then obtain pre post where s: "s = pre @ CR # post" and p: "pre = [] \<or> last pre = LF"
      by blast
    obtain l ls where l: "lines_of (CR # post) = (CR # l) # ls"
      using lines_of_nonempty [of post] by (cases "lines_of post") auto
    from p show False
    proof
      assume "pre = []"
      with s l r show False
        by (simp add: runs_out_in_header_def)
    next
      assume "last pre = LF"
      moreover from this p have "pre \<noteq> [] \<or> pre = []" by simp
      ultimately show False
      proof (cases pre rule: rev_cases)
        case Nil
        with s l r show False
          by (simp add: runs_out_in_header_def)
      next
        case (snoc pre' c)
        with \<open>last pre = LF\<close> have "s = pre' @ LF # (CR # post)"
          using s by simp
        then have "lines_of s = lines_of pre' @ (CR # l) # ls"
          by (simp only: lines_of_append l)
        with r show False
          by (simp add: runs_out_in_header_def)
      qed
    qed
  qed
next
  show "\<not> (\<exists>pre post. s = pre @ CR # post \<and> (pre = [] \<or> last pre = LF)) \<Longrightarrow> runs_out_in_header s"
  proof (induction s rule: length_induct)
    case (1 s)
    show ?case
    proof (cases s)
      case Nil
      then show ?thesis
        by (simp add: runs_out_in_header_def)
    next
      case (Cons c cs)
      from "1.prems" Cons have c: "c \<noteq> CR"
        by auto
      have short: "length (snd (getline s)) < length s"
        using Cons by (intro getline_shorter) simp
      have "\<not> (\<exists>pre post. snd (getline s) = pre @ CR # post \<and> (pre = [] \<or> last pre = LF))"
      proof
        assume "\<exists>pre post. snd (getline s) = pre @ CR # post \<and> (pre = [] \<or> last pre = LF)"
        then obtain pre post where
          g: "snd (getline s) = pre @ CR # post" and p: "pre = [] \<or> last pre = LF"
          by blast
        from g have "LF \<in> set s"
          by (rule_tac ccontr) (simp add: getline_last)
        then obtain l r where s: "s = l @ LF # r" and l: "LF \<notin> set l"
          by (auto dest: split_list_first)
        with g have "r = pre @ CR # post"
          by (simp add: getline_line del: append.simps)
        with s have "s = (l @ LF # pre) @ CR # post"
          by simp
        moreover from p have "last (l @ LF # pre) = LF"
          by auto
        ultimately show False
          using "1.prems" by blast
      qed
      with "1.IH" short have "runs_out_in_header (snd (getline s))"
        by blast
      with runs_out_step [of s] Cons c show ?thesis
        by simp
    qed
  qed
qed

lemma readMessageHeader_cases:
  fixes s :: istream
  shows "(runs_out_in_header s
            \<and> (readMessageHeader s :: ('x failure + MessageHeader) \<times> istream)
                = (Inl (ConnectionError ''Connection lost''), []))
       \<or> (\<not> runs_out_in_header s
            \<and> (\<exists>header r. (header_loop default_header s :: ('x failure + MessageHeader) \<times> istream)
                              = (Inr header, CR # LF # r)
                  \<and> (readMessageHeader s :: ('x failure + MessageHeader) \<times> istream)
                      = (Inr header, r)))
       \<or> (\<not> runs_out_in_header s
            \<and> (\<exists>header r. (header_loop default_header s :: ('x failure + MessageHeader) \<times> istream)
                              = (Inr header, CR # r)
                  \<and> peek r \<noteq> Some LF
                  \<and> (readMessageHeader s :: ('x failure + MessageHeader) \<times> istream)
                      = (Inl (ProtocolError ''Invalid message header format''), r)))"
proof -
  from header_loop_cases [where 'x = 'x, of default_header s]
  consider (ok) header r where
      "(header_loop default_header s :: ('x failure + MessageHeader) \<times> istream)
         = (Inr header, CR # r)" "\<not> runs_out_in_header s"
    | (eof) "(header_loop default_header s :: ('x failure + MessageHeader) \<times> istream)
         = (Inl (ConnectionError ''Connection lost''), [])" "runs_out_in_header s"
    by blast
  then show ?thesis
  proof cases
    case eof
    then show ?thesis
      by (simp add: readMessageHeader_def)
  next
    case ok
    show ?thesis
    proof (cases "peek r = Some LF")
      case True
      then obtain r' where "r = LF # r'"
        by (auto simp: peek_def split: list.splits)
      with ok show ?thesis
        by (simp add: readMessageHeader_def get_def peek_def)
    next
      case False
      with ok show ?thesis
        by (simp add: readMessageHeader_def get_def)
    qed
  qed
qed

lemma readMessageHeader_eof:
  "readMessageHeader [] = (Inl (ConnectionError ''Connection lost''), [])"
  by (simp add: readMessageHeader_def header_loop_eof)

lemma readMessageHeader_length_only:
  assumes "n \<le> SIZE_MAX"
  shows "(readMessageHeader (''Content-Length: '' @ to_string n @ [CR, LF, CR, LF] @ rest)
            :: ('x failure + MessageHeader) \<times> istream)
           = (Inr (default_header\<lparr>contentLength := n\<rparr>), rest)"
proof -
  let ?name = "''Content-Length''" and ?val = "'' '' @ to_string n @ [CR]"
  have shape: "''Content-Length: '' @ to_string n @ [CR, LF, CR, LF] @ rest
                 = ?name @ CHR '':'' # ?val @ LF # (CR # LF # rest)"
    by simp
  have name: "CHR '':'' \<notin> set ?name" "LF \<notin> set ?name"
    by simp_all
  have val: "LF \<notin> set ?val"
    using to_string_digits [of n] by (auto dest: digit_not_LF)
  have tn: "trimView ?name = ''Content-Length''"
    by (simp add: trimView_def isspace_def)
  have tv: "trimView ?val = to_string n"
    by (rule trimView_to_string) (simp_all add: isspace_def)
  have fc: "from_chars (to_string n) = Some n"
    using from_chars_to_string [OF assms, of "[]"] by simp
  have field: "(readNextMessageHeaderField default_header
                  (?name @ CHR '':'' # ?val @ LF # (CR # LF # rest))
                  :: ('x failure + MessageHeader) \<times> istream)
                 = (Inr (default_header\<lparr>contentLength := n\<rparr>), CR # LF # rest)"
    using field_with_colon [OF name val, where 'x = 'x, of default_header "CR # LF # rest",
        unfolded tn tv fc]
    by simp
  have "(header_loop default_header (?name @ CHR '':'' # ?val @ LF # (CR # LF # rest))
           :: ('x failure + MessageHeader) \<times> istream)
          = (Inr (default_header\<lparr>contentLength := n\<rparr>), CR # LF # rest)"
    using field by (simp add: header_loop_field header_loop_CR)
  then show ?thesis
    unfolding shape by (simp add: readMessageHeader_def get_def peek_def)
qed

lemma field_keeps_contentType:
  assumes "s \<noteq> []" and "field_name (fst (getline s)) \<noteq> Some ''Content-Type''"
    and "(readNextMessageHeaderField header s :: ('x failure + MessageHeader) \<times> istream)
           = (Inr header', s')"
  shows "contentType header' = contentType header"
proof -
  from assms(1) obtain c where "peek s = Some c"
    by (cases s) (simp_all add: peek_def)
  with assms(2,3) show ?thesis
    by (auto simp: readNextMessageHeaderField_def field_name_def Let_def
             split: prod.splits option.splits if_splits)
qed

lemma header_lines_step:
  assumes "s \<noteq> []" and "hd s \<noteq> CR"
  shows "header_lines s =
           fst (getline s) # (if LF \<in> set s then header_lines (snd (getline s)) else [])"
proof -
  from assms have "\<not> prefix [CR] (fst (getline s))"
    by (cases s) (auto simp: getline_def)
  then show ?thesis
    by (subst header_lines_def, subst lines_of_getline) (simp add: header_lines_def)
qed

lemma header_loop_keeps_contentType:
  assumes "(header_loop header s :: ('x failure + MessageHeader) \<times> istream) = (Inr header', s1)"
    and "\<forall>l \<in> set (header_lines s). field_name l \<noteq> Some ''Content-Type''"
  shows "contentType header' = contentType header"
  using assms
proof (induction s arbitrary: header rule: length_induct)
  case (1 s)
  show ?case
  proof (cases s)
    case Nil
    with "1.prems"(1) show ?thesis
      by (simp add: header_loop_eof)
  next
    case (Cons c cs)
    show ?thesis
    proof (cases "c = CR")
      case True
      with Cons "1.prems"(1) show ?thesis
        by (simp add: header_loop_CR)
    next
      case False
      from Cons obtain h1 where
        f: "(readNextMessageHeaderField header s :: ('x failure + MessageHeader) \<times> istream)
              = (Inr h1, snd (getline s))"
        using field_nonempty [of s header] by auto
      have loop: "(header_loop header s :: ('x failure + MessageHeader) \<times> istream)
                    = header_loop h1 (snd (getline s))"
        using Cons False f by (simp add: header_loop_field)
      have hl: "header_lines s =
                  fst (getline s) # (if LF \<in> set s then header_lines (snd (getline s)) else [])"
        using Cons False by (intro header_lines_step) simp_all
      have lf: "LF \<in> set s"
      proof (rule ccontr)
        assume "LF \<notin> set s"
        then have "snd (getline s) = []"
          by (simp add: getline_last)
        with loop "1.prems"(1) show False
          by (simp add: header_loop_eof)
      qed
      from hl "1.prems"(2) have first: "field_name (fst (getline s)) \<noteq> Some ''Content-Type''"
        by simp
      from hl lf "1.prems"(2)
      have rest: "\<forall>l \<in> set (header_lines (snd (getline s))). field_name l \<noteq> Some ''Content-Type''"
        by simp
      have short: "length (snd (getline s)) < length s"
        using Cons by (intro getline_shorter) simp
      from "1.prems"(1) loop
      have "(header_loop h1 (snd (getline s)) :: ('x failure + MessageHeader) \<times> istream)
              = (Inr header', s1)"
        by simp
      with "1.IH" short rest have "contentType header' = contentType h1"
        by blast
      moreover have "contentType h1 = contentType header"
        using Cons first f by (intro field_keeps_contentType [of s header h1]) simp_all
      ultimately show ?thesis
        by simp
    qed
  qed
qed

lemma readMessageHeader_default_contentType:
  assumes "(readMessageHeader s :: ('x failure + MessageHeader) \<times> istream) = (Inr header, s1)"
    and "\<forall>l \<in> set (header_lines s). field_name l \<noteq> Some ''Content-Type''"
  shows "contentType header = default_contentType"
proof -
  from assms(1) obtain r where
    "(header_loop default_header s :: ('x failure + MessageHeader) \<times> istream) = (Inr header, r)"
    by (auto simp: readMessageHeader_def Let_def split: prod.splits sum.splits if_splits)
  from header_loop_keeps_contentType [OF this assms(2)] show ?thesis
    by (simp add: default_header_def)
qed

section \<open>Lemmas about the receive path and the send path\<close>

lemma read_bytes_zeroed:
  "read_bytes (replicate n (CHR 0x00)) n s
     = (take n s @ replicate (n - length s) (CHR 0x00), drop n s)"
  by (simp add: read_bytes_def min_def)

lemma resize_succeeds:
  "n \<le> max_size mem \<Longrightarrow> n \<le> available mem \<Longrightarrow> resize mem n = Inr (replicate n (CHR 0x00))"
  by (simp add: resize_def)

lemma resize_errors:
  "(resize mem n :: 'x failure + string) = Inl e \<Longrightarrow> e = LengthError \<or> e = BadAlloc"
  by (auto simp: resize_def split: if_splits)

lemma resize_buffer:
  "(resize mem n :: 'x failure + string) = Inr buf \<Longrightarrow>
   buf = replicate n (CHR 0x00) \<and> n \<le> max_size mem \<and> n \<le> available mem"
  by (auto simp: resize_def split: if_splits)

lemma receiveMessage_eof:
  "receiveMessage mem parse messageFromJson [] = (Inl (ConnectionError ''Connection lost''), [])"
  by (simp add: receiveMessage_def peek_def)

lemma receiveMessage_header_failed:
  assumes "s \<noteq> []"
    and "(readMessageHeader s :: ('x failure + MessageHeader) \<times> istream) = (Inl e, s1)"
  shows "receiveMessage mem (parse :: string \<Rightarrow> 'x + 'j) messageFromJson s = (Inl e, s1)"
  using assms by (cases s) (simp_all add: receiveMessage_def peek_def)

lemma receiveMessage_header_read:
  assumes "(readMessageHeader s :: ('x failure + MessageHeader) \<times> istream) = (Inr header, s1)"
  shows "receiveMessage mem (parse :: string \<Rightarrow> 'x + 'j) messageFromJson s =
           (case (resize mem (contentLength header) :: 'x failure + string) of
              Inl e \<Rightarrow> (Inl e, s1)
            | Inr _ \<Rightarrow>
                (case checkContentType (contentType header) of
                   Inl e \<Rightarrow> (Inl e, drop (contentLength header) s1)
                 | Inr _ \<Rightarrow>
                     (decode parse messageFromJson
                        (take (contentLength header) s1
                           @ replicate (contentLength header - length s1) (CHR 0x00)),
                      drop (contentLength header) s1)))"
proof -
  from assms have "s \<noteq> []"
    by (auto simp: readMessageHeader_eof)
  then obtain c where p: "peek s = Some c"
    by (cases s) (simp_all add: peek_def)
  show ?thesis
  proof (cases "resize mem (contentLength header) :: 'x failure + string")
    case (Inl e)
    with assms p show ?thesis
      by (simp add: receiveMessage_def)
  next
    case (Inr buf)
    from resize_buffer [OF this] have "buf = replicate (contentLength header) (CHR 0x00)"
      by simp
    with Inr assms p show ?thesis
      by (simp add: receiveMessage_def read_bytes_zeroed split: sum.splits)
  qed
qed

lemma receiveMessage_body_read:
  assumes "(readMessageHeader s :: ('x failure + MessageHeader) \<times> istream) = (Inr header, s1)"
    and "contentLength header \<le> max_size mem" and "contentLength header \<le> available mem"
  shows "receiveMessage mem (parse :: string \<Rightarrow> 'x + 'j) messageFromJson s =
           (case checkContentType (contentType header) of
              Inl e \<Rightarrow> (Inl e, drop (contentLength header) s1)
            | Inr _ \<Rightarrow>
                (decode parse messageFromJson
                   (take (contentLength header) s1
                      @ replicate (contentLength header - length s1) (CHR 0x00)),
                 drop (contentLength header) s1))"
  unfolding receiveMessage_header_read [OF assms(1)] resize_succeeds [OF assms(2,3)]
  by simp

lemma checkContentType_errors:
  "(checkContentType ctype :: 'x failure + unit) = Inl e \<Longrightarrow>
   e = ProtocolError (''Unsupported or invalid content type: '' @ ctype)
   \<or> (\<exists>charset. e = ProtocolError (''Unsupported or invalid character encoding: '' @ charset))"
  by (auto simp: checkContentType_def Let_def split: if_splits option.splits)

lemma checkContentType_default: "checkContentType default_contentType = Inr ()"
  by (simp add: checkContentType_def default_contentType_def trimView_def isspace_def
        substr_upto_def Let_def)

text \<open>
  \<open>find_str\<close> returns the first place where the key stands, and \<open>None\<close> only
  when it stands nowhere.
\<close>

lemma find_str_first:
  "\<forall>j < length pre. \<not> prefix k (drop j (pre @ k @ post)) \<Longrightarrow>
   find_str k (pre @ k @ post) = Some (length pre)"
proof (induction pre)
  case Nil
  have "prefix k (k @ post)"
    by simp
  then show ?case
    by (cases "k @ post") auto
next
  case (Cons x pre)
  from Cons.prems have "\<not> prefix k (drop 0 ((x # pre) @ k @ post))"
    by blast
  then have first: "\<not> prefix k (x # pre @ k @ post)"
    by simp
  have "\<forall>j < length pre. \<not> prefix k (drop j (pre @ k @ post))"
  proof (intro allI impI)
    fix j assume "j < length pre"
    then have "Suc j < length (x # pre)"
      by simp
    with Cons.prems have "\<not> prefix k (drop (Suc j) ((x # pre) @ k @ post))"
      by blast
    then show "\<not> prefix k (drop j (pre @ k @ post))"
      by simp
  qed
  from Cons.IH [OF this] first show ?case
    by simp
qed

lemma find_str_nowhere:
  "\<forall>j \<le> length str. \<not> prefix k (drop j str) \<Longrightarrow> find_str k str = None"
proof (induction str)
  case Nil
  then show ?case
    by auto
next
  case (Cons x str)
  from Cons.prems have "\<not> prefix k (drop 0 (x # str))"
    by blast
  then have first: "\<not> prefix k (x # str)"
    by simp
  have "\<forall>j \<le> length str. \<not> prefix k (drop j str)"
  proof (intro allI impI)
    fix j assume "j \<le> length str"
    then have "Suc j \<le> length (x # str)"
      by simp
    with Cons.prems have "\<not> prefix k (drop (Suc j) (x # str))"
      by blast
    then show "\<not> prefix k (drop j str)"
      by simp
  qed
  from Cons.IH [OF this] first show ?case
    by simp
qed

lemma find_str_Some:
  "find_str k str = Some i \<Longrightarrow>
   i \<le> length str \<and> prefix k (drop i str) \<and> (\<forall>j < i. \<not> prefix k (drop j str))"
proof (induction str arbitrary: i)
  case Nil
  then show ?case
    by (auto split: if_splits)
next
  case (Cons x str)
  show ?case
  proof (cases "prefix k (x # str)")
    case True
    with Cons.prems show ?thesis
      by simp
  next
    case False
    with Cons.prems obtain i' where i': "find_str k str = Some i'" and i: "i = Suc i'"
      by auto
    from Cons.IH [OF i'] have ih:
      "i' \<le> length str" "prefix k (drop i' str)" "\<forall>j < i'. \<not> prefix k (drop j str)"
      by simp_all
    have "\<forall>j < Suc i'. \<not> prefix k (drop j (x # str))"
    proof (intro allI impI)
      fix j assume j: "j < Suc i'"
      show "\<not> prefix k (drop j (x # str))"
      proof (cases j)
        case 0
        with False show ?thesis by simp
      next
        case (Suc j')
        with j ih(3) show ?thesis by simp
      qed
    qed
    with ih i show ?thesis
      by simp
  qed
qed

lemma find_str_None:
  "find_str k str = None \<Longrightarrow> \<forall>j \<le> length str. \<not> prefix k (drop j str)"
proof (induction str)
  case Nil
  then show ?case
    by (auto split: if_splits)
next
  case (Cons x str)
  from Cons.prems have first: "\<not> prefix k (x # str)" and "find_str k str = None"
    by (auto split: if_splits)
  from Cons.IH [OF this(2)] have ih: "\<forall>j \<le> length str. \<not> prefix k (drop j str)" .
  show ?case
  proof (intro allI impI)
    fix j assume j: "j \<le> length (x # str)"
    show "\<not> prefix k (drop j (x # str))"
    proof (cases j)
      case 0
      with first show ?thesis by simp
    next
      case (Suc j')
      with j ih show ?thesis by simp
    qed
  qed
qed

text \<open>
  The character set that \<^verbatim>\<open>receiveMessage\<close> looks at: the text between the first
  \<^verbatim>\<open>charset=\<close> of the content type and the next semicolon (or the end), trimmed.
\<close>

lemma checkContentType_charset:
  assumes "prefix ''application/vscode-jsonrpc'' ctype"
    and "ctype = pre @ ''charset='' @ cs @ rest"
    and "\<forall>j < length pre. \<not> prefix ''charset='' (drop j ctype)"
    and "CHR '';'' \<notin> set cs" and "rest = [] \<or> hd rest = CHR '';''"
  shows "(checkContentType ctype :: 'x failure + unit) =
           (if trimView cs \<noteq> ''utf-8'' \<and> trimView cs \<noteq> ''utf8'' then
              Inl (ProtocolError (''Unsupported or invalid character encoding: '' @ trimView cs))
            else Inr ())"
proof -
  have f: "find_str ''charset='' ctype = Some (length pre)"
    using find_str_first [of pre "''charset=''" "cs @ rest"] assms(2,3) by simp
  have d: "drop (length pre + length ''charset='') ctype = cs @ rest"
    using assms(2) by simp
  have "substr_upto (cs @ rest) (find_char (CHR '';'') (cs @ rest)) = cs"
  proof (cases rest)
    case Nil
    with assms(4) show ?thesis
      by (simp add: find_char_absent substr_upto_def)
  next
    case (Cons r rs)
    with assms(5) have "rest = CHR '';'' # rs"
      by simp
    with assms(4) show ?thesis
      by (simp add: find_char_first substr_upto_def)
  qed
  with assms(1) d [simplified] show ?thesis
    by (simp add: checkContentType_def f Let_def)
qed

lemma checkContentType_no_charset:
  assumes "prefix ''application/vscode-jsonrpc'' ctype"
    and "\<forall>j \<le> length ctype. \<not> prefix ''charset='' (drop j ctype)"
  shows "checkContentType ctype = Inr ()"
  using assms(1) find_str_nowhere [OF assms(2)]
  by (simp add: checkContentType_def)

text \<open>Every content type is of one of the two kinds.\<close>

lemma charset_cases:
  "(\<forall>j \<le> length ctype. \<not> prefix ''charset='' (drop j ctype))
   \<or> (\<exists>pre cs rest. ctype = pre @ ''charset='' @ cs @ rest
         \<and> (\<forall>j < length pre. \<not> prefix ''charset='' (drop j ctype))
         \<and> CHR '';'' \<notin> set cs \<and> (rest = [] \<or> hd rest = CHR '';''))"
proof (cases "find_str ''charset='' ctype")
  case None
  from find_str_None [OF this] show ?thesis
    by blast
next
  case (Some i)
  from find_str_Some [OF this] have
    i: "i \<le> length ctype" and p: "prefix ''charset='' (drop i ctype)"
    and first: "\<forall>j < i. \<not> prefix ''charset='' (drop j ctype)"
    by simp_all
  from p obtain post where post: "drop i ctype = ''charset='' @ post"
    by (auto simp: prefix_def)
  let ?pre = "take i ctype"
  let ?cs = "takeWhile (\<lambda>c. c \<noteq> CHR '';'') post"
  let ?rest = "dropWhile (\<lambda>c. c \<noteq> CHR '';'') post"
  have "ctype = ?pre @ drop i ctype"
    by simp
  with post have "ctype = ?pre @ ''charset='' @ ?cs @ ?rest"
    by simp
  moreover have "\<forall>j < length ?pre. \<not> prefix ''charset='' (drop j ctype)"
    using first i by simp
  moreover have "CHR '';'' \<notin> set ?cs"
    by (auto dest: set_takeWhileD)
  moreover have "?rest = [] \<or> hd ?rest = CHR '';''"
    using hd_dropWhile [of "\<lambda>c. c \<noteq> CHR '';''" post] by auto
  ultimately show ?thesis
    by blast
qed

lemma decode_errors:
  "decode parse messageFromJson content = Inl e \<Longrightarrow> \<exists>x. e = Foreign x"
  by (auto simp: decode_def split: sum.splits)

lemma receive_wire_frame:
  assumes "length body \<le> SIZE_MAX"
    and "length body \<le> max_size mem" and "length body \<le> available mem"
  shows "receiveMessage mem (parse :: string \<Rightarrow> 'x + 'j) messageFromJson (wire_frame body @ rest)
           = (decode parse messageFromJson body, rest)"
proof -
  have "(readMessageHeader (wire_frame body @ rest) :: ('x failure + MessageHeader) \<times> istream)
          = (Inr (default_header\<lparr>contentLength := length body\<rparr>), body @ rest)"
    using readMessageHeader_length_only [OF assms(1), of "body @ rest"]
    by (simp add: wire_frame_def)
  from receiveMessage_body_read [OF this, where parse = parse and messageFromJson = messageFromJson
         and mem = mem] assms(2,3)
  show ?thesis
    by (simp add: default_header_def checkContentType_default)
qed

text \<open>The facts that evaluate a call on a concrete stream.\<close>

lemmas receive_eval =
  receiveMessage_def readMessageHeader_def header_loop_field header_loop_CR header_loop_eof
  readNextMessageHeaderField_def peek_def getline_def get_def resize_def read_bytes_def
  small_machine_def checkContentType_def decode_def trimView_def isspace_def substr_upto_def
  from_chars_def is_digit_def decimal_value_def digit_value_def SIZE_MAX_def
  default_header_def default_contentType_def Let_def

lemma find_str_absent: "c \<notin> set str \<Longrightarrow> find_str (c # k) str = None"
  by (induction str) auto

lemma digit_not_C: "is_digit c \<Longrightarrow> c \<noteq> CHR ''C''"
  by (auto simp: is_digit_def)

lemma header_text_has_no_content_type:
  "find_str ''Content-Type'' (''Content-Length: '' @ to_string n @ [CR, LF, CR, LF]) = None"
proof -
  have "CHR ''C'' \<notin> set (to_string n @ [CR, LF, CR, LF])"
    using to_string_digits [of n] by (auto dest: digit_not_C)
  then have "find_str ''Content-Type'' (to_string n @ [CR, LF, CR, LF]) = None"
    by (rule find_str_absent)
  then show ?thesis
    by simp
qed

lemma writeMessage_nonempty:
  "content \<noteq> [] \<Longrightarrow>
   writeMessage content out =
     (Inr (), \<lparr>written = written out @ wire_frame content,
              flushed = length (written out @ wire_frame content)\<rparr>)"
  by (simp add: writeMessage_def writeMessageHeader_def write_bytes_def flush_def
        wire_frame_def default_contentType_def Let_def)

lemma writeMessage_empty:
  "writeMessage [] out = (Inl (AssertionFailure ''header.contentLength > 0''), out)"
  by (simp add: writeMessage_def writeMessageHeader_def Let_def)

lemma writeJsonMessage_nonempty:
  "stringify content \<noteq> [] \<Longrightarrow>
   writeJsonMessage stringify content out =
     (Inr (), \<lparr>written = written out @ wire_frame (stringify content),
              flushed = length (written out @ wire_frame (stringify content))\<rparr>)"
  by (simp add: writeJsonMessage_def Let_def writeMessage_nonempty)

lemma writeJsonMessage_empty:
  "stringify content = [] \<Longrightarrow>
   writeJsonMessage stringify content out = (Inl (AssertionFailure ''!contentStr.empty()''), out)"
  by (simp add: writeJsonMessage_def Let_def)

section \<open>The properties\<close>

subsection \<open>C1: where the stream stands after a protocol error\<close>

text \<open>
  Claim C1 as stated does not hold: the protocol error for a malformed header
  terminator is thrown by \<^verbatim>\<open>readMessageHeader\<close>, before \<^verbatim>\<open>receiveMessage\<close>
  reads the body. In the stream below the header declares three bytes and its
  terminator is a lone carriage return; the call fails with a
  \<^verbatim>\<open>ProtocolError\<close> and the three bytes \<open>abc\<close> are still unread, in front of the
  next message. A second call then takes \<open>abc\<close> for the start of a header line
  and does not return the message \<open>{}\<close> that follows.
\<close>

theorem header_error_leaves_body_unread:
  "receiveMessage small_machine (Inr :: string \<Rightarrow> unit + string) (Inr :: string \<Rightarrow> unit + string)
     (''Content-Length: 3'' @ [CR, LF, CR] @ ''abc'' @ ''Content-Length: 2'' @ [CR, LF, CR, LF] @ ''{}'')
     = (Inl (ProtocolError ''Invalid message header format''),
        ''abc'' @ ''Content-Length: 2'' @ [CR, LF, CR, LF] @ ''{}'')
   \<and> receiveMessage small_machine (Inr :: string \<Rightarrow> unit + string) (Inr :: string \<Rightarrow> unit + string)
     (''abc'' @ ''Content-Length: 2'' @ [CR, LF, CR, LF] @ ''{}'')
     = (Inr [], ''{}'')"
  by (simp add: receive_eval)

text \<open>
  Claim C1, as the code has it. Every \<^verbatim>\<open>ProtocolError\<close> of \<^verbatim>\<open>receiveMessage\<close>
  other than the one for a malformed header terminator (so: every error about
  the content type or the character set) is raised after the header has been
  parsed and after the read of \<open>contentLength\<close> bytes: the stream stands
  \<open>contentLength\<close> bytes behind the header (at its end, when fewer bytes were
  left), which is the start of the next message.
\<close>

theorem protocol_error_after_body_read:
  assumes "receiveMessage mem (parse :: string \<Rightarrow> 'x + 'j) messageFromJson s
             = (Inl (ProtocolError msg), s')"
    and "msg \<noteq> ''Invalid message header format''"
  shows "\<exists>header s1.
           (readMessageHeader s :: ('x failure + MessageHeader) \<times> istream) = (Inr header, s1)
           \<and> s' = drop (contentLength header) s1"
proof -
  from assms(1) have ne: "s \<noteq> []"
    by (auto simp: receiveMessage_eof)
  from readMessageHeader_cases [where 'x = 'x, of s]
  consider (eof) "(readMessageHeader s :: ('x failure + MessageHeader) \<times> istream)
                    = (Inl (ConnectionError ''Connection lost''), [])"
    | (ok) header r where
        "(readMessageHeader s :: ('x failure + MessageHeader) \<times> istream) = (Inr header, r)"
    | (bad) r where
        "(readMessageHeader s :: ('x failure + MessageHeader) \<times> istream)
           = (Inl (ProtocolError ''Invalid message header format''), r)"
    by blast
  then show ?thesis
  proof cases
    case eof
    from receiveMessage_header_failed [OF ne this, where parse = parse and messageFromJson = messageFromJson and mem = mem] assms(1)
    show ?thesis by simp
  next
    case bad
    from receiveMessage_header_failed [OF ne this, where parse = parse and messageFromJson = messageFromJson and mem = mem] assms
    show ?thesis by simp
  next
    case ok
    from receiveMessage_header_read [OF this, where parse = parse and messageFromJson = messageFromJson and mem = mem] assms(1)
    have "s' = drop (contentLength header) r"
      by (auto split: sum.splits dest: resize_errors)
    with ok show ?thesis
      by blast
  qed
qed

theorem protocol_error_after_body_read_witness:
  "receiveMessage small_machine (Inr :: string \<Rightarrow> unit + string) (Inr :: string \<Rightarrow> unit + string)
     (''Content-Length: 3'' @ [CR, LF] @ ''Content-Type: text/plain'' @ [CR, LF, CR, LF] @ ''abc''
        @ ''Content-Length: 2'' @ [CR, LF, CR, LF] @ ''{}'')
     = (Inl (ProtocolError ''Unsupported or invalid content type: text/plain''),
        ''Content-Length: 2'' @ [CR, LF, CR, LF] @ ''{}'')
   \<and> ''Unsupported or invalid content type: text/plain'' \<noteq> ''Invalid message header format''
   \<and> (\<exists>header s1.
        (readMessageHeader
           (''Content-Length: 3'' @ [CR, LF] @ ''Content-Type: text/plain'' @ [CR, LF, CR, LF] @ ''abc''
              @ ''Content-Length: 2'' @ [CR, LF, CR, LF] @ ''{}'')
           :: (unit failure + MessageHeader) \<times> istream) = (Inr header, s1)
        \<and> ''Content-Length: 2'' @ [CR, LF, CR, LF] @ ''{}'' = drop (contentLength header) s1)
   \<and> receiveMessage small_machine (Inr :: string \<Rightarrow> unit + string) (Inr :: string \<Rightarrow> unit + string)
        (''Content-Length: 2'' @ [CR, LF, CR, LF] @ ''{}'')
     = (Inr ''{}'', [])"
proof -
  have a: "receiveMessage small_machine (Inr :: string \<Rightarrow> unit + string) (Inr :: string \<Rightarrow> unit + string)
     (''Content-Length: 3'' @ [CR, LF] @ ''Content-Type: text/plain'' @ [CR, LF, CR, LF] @ ''abc''
        @ ''Content-Length: 2'' @ [CR, LF, CR, LF] @ ''{}'')
     = (Inl (ProtocolError ''Unsupported or invalid content type: text/plain''),
        ''Content-Length: 2'' @ [CR, LF, CR, LF] @ ''{}'')"
    by (simp add: receive_eval)
  have b: "''Unsupported or invalid content type: text/plain'' \<noteq> ''Invalid message header format''"
    by simp
  have c: "receiveMessage small_machine (Inr :: string \<Rightarrow> unit + string) (Inr :: string \<Rightarrow> unit + string)
        (''Content-Length: 2'' @ [CR, LF, CR, LF] @ ''{}'')
     = (Inr ''{}'', [])"
    by (simp add: receive_eval)
  from protocol_error_after_body_read [OF a b] a b c show ?thesis
    by blast
qed

subsection \<open>C2: connection errors\<close>

text \<open>
  Claim C2. \<^verbatim>\<open>receiveMessage\<close> fails with a \<^verbatim>\<open>ConnectionError\<close> exactly when the
  input runs out where a header line or the header terminator had to begin: that
  is, when the input has no line that begins with the carriage return of the
  terminator. The stream with no byte at all is the first such case. In every
  other case the call does not fail with a \<^verbatim>\<open>ConnectionError\<close>, and a
  \<^verbatim>\<open>ConnectionError\<close> is not a \<^verbatim>\<open>ProtocolError\<close>.
\<close>

theorem connection_error_iff_input_runs_out:
  "(runs_out_in_header s \<longrightarrow>
      receiveMessage mem (parse :: string \<Rightarrow> 'x + 'j) messageFromJson s
        = (Inl (ConnectionError ''Connection lost''), []))
   \<and> (\<not> runs_out_in_header s \<longrightarrow>
      (\<forall>msg. fst (receiveMessage mem (parse :: string \<Rightarrow> 'x + 'j) messageFromJson s)
               \<noteq> Inl (ConnectionError msg)))
   \<and> runs_out_in_header []"
proof (intro conjI impI allI)
  show "runs_out_in_header []"
    by (simp add: runs_out_in_header_def)
next
  assume r: "runs_out_in_header s"
  show "receiveMessage mem parse messageFromJson s = (Inl (ConnectionError ''Connection lost''), [])"
  proof (cases "s = []")
    case True
    then show ?thesis
      by (simp add: receiveMessage_eof)
  next
    case False
    from readMessageHeader_cases [where 'x = 'x, of s] r
    have "(readMessageHeader s :: ('x failure + MessageHeader) \<times> istream)
            = (Inl (ConnectionError ''Connection lost''), [])"
      by blast
    from receiveMessage_header_failed [OF False this] show ?thesis .
  qed
next
  fix msg
  assume r: "\<not> runs_out_in_header s"
  then have ne: "s \<noteq> []"
    by (auto simp: runs_out_in_header_def)
  from readMessageHeader_cases [where 'x = 'x, of s] r
  consider (ok) header r where
      "(readMessageHeader s :: ('x failure + MessageHeader) \<times> istream) = (Inr header, r)"
    | (bad) r where
        "(readMessageHeader s :: ('x failure + MessageHeader) \<times> istream)
           = (Inl (ProtocolError ''Invalid message header format''), r)"
    by blast
  then show "fst (receiveMessage mem parse messageFromJson s) \<noteq> Inl (ConnectionError msg)"
  proof cases
    case bad
    from receiveMessage_header_failed [OF ne this, where parse = parse and messageFromJson = messageFromJson and mem = mem] show ?thesis
      by simp
  next
    case ok
    from receiveMessage_header_read [OF this, where parse = parse and messageFromJson = messageFromJson and mem = mem]
    show ?thesis
      by (auto split: sum.splits dest: checkContentType_errors decode_errors resize_errors)
  qed
qed

theorem connection_error_iff_input_runs_out_witness:
  "runs_out_in_header (''Content-Length: 2'' @ [CR, LF])
   \<and> receiveMessage small_machine (Inr :: string \<Rightarrow> unit + string) (Inr :: string \<Rightarrow> unit + string)
       (''Content-Length: 2'' @ [CR, LF])
     = (Inl (ConnectionError ''Connection lost''), [])
   \<and> \<not> runs_out_in_header (''Content-Length: 2'' @ [CR, LF, CR, LF] @ ''{}'')
   \<and> (\<forall>msg. fst (receiveMessage small_machine (Inr :: string \<Rightarrow> unit + string) (Inr :: string \<Rightarrow> unit + string)
                   (''Content-Length: 2'' @ [CR, LF, CR, LF] @ ''{}''))
              \<noteq> Inl (ConnectionError msg))"
proof -
  have a: "runs_out_in_header (''Content-Length: 2'' @ [CR, LF])"
    by (simp add: runs_out_in_header_def)
  have b: "\<not> runs_out_in_header (''Content-Length: 2'' @ [CR, LF, CR, LF] @ ''{}'')"
    by (simp add: runs_out_in_header_def)
  from connection_error_iff_input_runs_out
         [where 'x = unit and s = "''Content-Length: 2'' @ [CR, LF]" and parse = Inr
            and messageFromJson = Inr and mem = small_machine]
       connection_error_iff_input_runs_out
         [where 'x = unit and s = "''Content-Length: 2'' @ [CR, LF, CR, LF] @ ''{}''"
            and parse = Inr and messageFromJson = Inr and mem = small_machine]
       a b
  show ?thesis
    by blast
qed

text \<open>
  Two places where the input ends and the call does not fail with a
  \<^verbatim>\<open>ConnectionError\<close>, both outside the list of claim C2. After the carriage
  return of the terminator the end of the input is reported as a malformed
  header; and a body shorter than the declared length is not reported by this
  layer at all: \<^verbatim>\<open>m_in.read\<close> stores what is left, the rest of the buffer stays
  zero, and the buffer goes to the JSON parser.
\<close>

lemma input_ends_inside_terminator:
  "receiveMessage small_machine (Inr :: string \<Rightarrow> unit + string) (Inr :: string \<Rightarrow> unit + string)
     (''Content-Length: 2'' @ [CR, LF, CR])
     = (Inl (ProtocolError ''Invalid message header format''), [])"
  by (simp add: receive_eval)

lemma input_ends_inside_body:
  "receiveMessage small_machine (Inr :: string \<Rightarrow> unit + string) (Inr :: string \<Rightarrow> unit + string)
     (''Content-Length: 5'' @ [CR, LF, CR, LF] @ ''{}'')
     = (Inr (''{}'' @ replicate 3 (CHR 0x00)), [])"
  by (simp add: receive_eval)

subsection \<open>C3: validation of the content type\<close>

text \<open>
  Claim C3 as stated does not hold where it speaks of the charset parameter:
  \<^verbatim>\<open>receiveMessage\<close> does not take the content type apart into parameters, it
  searches the text \<^verbatim>\<open>charset=\<close> and looks at what follows its first
  occurrence. In the first message below the charset parameter is \<^verbatim>\<open>latin1\<close>
  and the message is accepted, because the search stops inside the parameter
  \<^verbatim>\<open>xcharset=utf-8\<close> in front of it; in the second there is no charset
  parameter and the message is refused, for the same reason.
\<close>

theorem charset_is_searched_as_text:
  "receiveMessage small_machine (Inr :: string \<Rightarrow> unit + string) (Inr :: string \<Rightarrow> unit + string)
     (''Content-Length: 2'' @ [CR, LF]
        @ ''Content-Type: application/vscode-jsonrpc; xcharset=utf-8; charset=latin1''
        @ [CR, LF, CR, LF] @ ''{}'')
     = (Inr ''{}'', [])
   \<and> receiveMessage small_machine (Inr :: string \<Rightarrow> unit + string) (Inr :: string \<Rightarrow> unit + string)
     (''Content-Length: 2'' @ [CR, LF]
        @ ''Content-Type: application/vscode-jsonrpc; xcharset=utf-16''
        @ [CR, LF, CR, LF] @ ''{}'')
     = (Inl (ProtocolError ''Unsupported or invalid character encoding: utf-16''), [])"
  by (simp add: receive_eval)

text \<open>
  Claim C3, as the code has it. Let the header of a message be parsed, with
  content type \<open>ctype\<close> and length \<open>n\<close>, and let the buffer for the body be
  allocated (the validation comes after \<^verbatim>\<open>content.resize\<close> and the read).
  \<^item> When \<open>ctype\<close> does not begin with \<^verbatim>\<open>application/vscode-jsonrpc\<close> the call
    fails with a \<^verbatim>\<open>ProtocolError\<close> whose text ends with \<open>ctype\<close>.
  \<^item> When it does, and the text \<^verbatim>\<open>charset=\<close> occurs in \<open>ctype\<close>, let \<open>cs\<close> be the
    text between the first occurrence and the next semicolon, or the end of
    \<open>ctype\<close> when no semicolon follows. The call goes on to the JSON parser if the
    trimmed \<open>cs\<close> is \<^verbatim>\<open>utf-8\<close> or \<^verbatim>\<open>utf8\<close>, and fails with a \<^verbatim>\<open>ProtocolError\<close>
    for every other \<open>cs\<close>: the comparison is on the bytes, so \<^verbatim>\<open>UTF-8\<close> and
    \<^verbatim>\<open>latin1\<close> are refused.
  \<^item> When it does, and the text \<^verbatim>\<open>charset=\<close> occurs nowhere in \<open>ctype\<close>, the call
    goes on to the JSON parser.
  \<^item> When no line of the header block is a \<^verbatim>\<open>Content-Type\<close> field, the call goes
    on to the JSON parser.

  By lemma \<open>charset_cases\<close> every content type falls under the second or the
  third case, so the four cases leave no content type open.
\<close>

theorem content_type_validation:
  fixes parse :: "string \<Rightarrow> 'x + 'j" and messageFromJson :: "'j \<Rightarrow> 'x + 'r"
  assumes "(readMessageHeader s :: ('x failure + MessageHeader) \<times> istream) = (Inr header, s1)"
    and "contentType header = ctype" and "contentLength header = n"
    and "n \<le> max_size mem" and "n \<le> available mem"
  defines "accepted \<equiv>
    (decode parse messageFromJson (take n s1 @ replicate (n - length s1) (CHR 0x00)), drop n s1)"
  shows
    "(\<not> prefix ''application/vscode-jsonrpc'' ctype \<longrightarrow>
        receiveMessage mem parse messageFromJson s =
          (Inl (ProtocolError (''Unsupported or invalid content type: '' @ ctype)), drop n s1))
   \<and> (prefix ''application/vscode-jsonrpc'' ctype
        \<and> ctype = pre @ ''charset='' @ cs @ rest
        \<and> (\<forall>j < length pre. \<not> prefix ''charset='' (drop j ctype))
        \<and> CHR '';'' \<notin> set cs \<and> (rest = [] \<or> hd rest = CHR '';'') \<longrightarrow>
        (trimView cs = ''utf-8'' \<or> trimView cs = ''utf8'' \<longrightarrow>
           receiveMessage mem parse messageFromJson s = accepted)
      \<and> (trimView cs \<noteq> ''utf-8'' \<and> trimView cs \<noteq> ''utf8'' \<longrightarrow>
           receiveMessage mem parse messageFromJson s =
             (Inl (ProtocolError (''Unsupported or invalid character encoding: '' @ trimView cs)),
              drop n s1)))
   \<and> (prefix ''application/vscode-jsonrpc'' ctype
        \<and> (\<forall>j \<le> length ctype. \<not> prefix ''charset='' (drop j ctype)) \<longrightarrow>
        receiveMessage mem parse messageFromJson s = accepted)
   \<and> ((\<forall>l \<in> set (header_lines s). field_name l \<noteq> Some ''Content-Type'') \<longrightarrow>
        receiveMessage mem parse messageFromJson s = accepted)"
proof -
  have read: "receiveMessage mem parse messageFromJson s =
           (case checkContentType ctype of
              Inl e \<Rightarrow> (Inl e, drop n s1)
            | Inr _ \<Rightarrow> accepted)"
  proof -
    have le: "contentLength header \<le> max_size mem" "contentLength header \<le> available mem"
      using assms(3-5) by simp_all
    show ?thesis
      unfolding accepted_def
      by (rule receiveMessage_body_read [OF assms(1) le, where parse = parse
            and messageFromJson = messageFromJson, unfolded assms(2,3)])
  qed
  have a: "\<not> prefix ''application/vscode-jsonrpc'' ctype \<longrightarrow>
        receiveMessage mem parse messageFromJson s =
          (Inl (ProtocolError (''Unsupported or invalid content type: '' @ ctype)), drop n s1)"
    by (simp add: read checkContentType_def)
  have b: "prefix ''application/vscode-jsonrpc'' ctype
        \<and> ctype = pre @ ''charset='' @ cs @ rest
        \<and> (\<forall>j < length pre. \<not> prefix ''charset='' (drop j ctype))
        \<and> CHR '';'' \<notin> set cs \<and> (rest = [] \<or> hd rest = CHR '';'') \<longrightarrow>
        (trimView cs = ''utf-8'' \<or> trimView cs = ''utf8'' \<longrightarrow>
           receiveMessage mem parse messageFromJson s = accepted)
      \<and> (trimView cs \<noteq> ''utf-8'' \<and> trimView cs \<noteq> ''utf8'' \<longrightarrow>
           receiveMessage mem parse messageFromJson s =
             (Inl (ProtocolError (''Unsupported or invalid character encoding: '' @ trimView cs)),
              drop n s1))"
  proof
    assume h: "prefix ''application/vscode-jsonrpc'' ctype
        \<and> ctype = pre @ ''charset='' @ cs @ rest
        \<and> (\<forall>j < length pre. \<not> prefix ''charset='' (drop j ctype))
        \<and> CHR '';'' \<notin> set cs \<and> (rest = [] \<or> hd rest = CHR '';'')"
    have cc: "(checkContentType ctype :: 'x failure + unit) =
           (if trimView cs \<noteq> ''utf-8'' \<and> trimView cs \<noteq> ''utf8'' then
              Inl (ProtocolError (''Unsupported or invalid character encoding: '' @ trimView cs))
            else Inr ())"
      using h by (intro checkContentType_charset [of ctype pre cs rest]) blast+
    show "(trimView cs = ''utf-8'' \<or> trimView cs = ''utf8'' \<longrightarrow>
           receiveMessage mem parse messageFromJson s = accepted)
      \<and> (trimView cs \<noteq> ''utf-8'' \<and> trimView cs \<noteq> ''utf8'' \<longrightarrow>
           receiveMessage mem parse messageFromJson s =
             (Inl (ProtocolError (''Unsupported or invalid character encoding: '' @ trimView cs)),
              drop n s1))"
      unfolding read cc by auto
  qed
  have c: "prefix ''application/vscode-jsonrpc'' ctype
        \<and> (\<forall>j \<le> length ctype. \<not> prefix ''charset='' (drop j ctype)) \<longrightarrow>
        receiveMessage mem parse messageFromJson s = accepted"
  proof
    assume "prefix ''application/vscode-jsonrpc'' ctype
        \<and> (\<forall>j \<le> length ctype. \<not> prefix ''charset='' (drop j ctype))"
    then have "(checkContentType ctype :: 'x failure + unit) = Inr ()"
      by (intro checkContentType_no_charset) blast+
    then show "receiveMessage mem parse messageFromJson s = accepted"
      by (simp add: read)
  qed
  have d: "(\<forall>l \<in> set (header_lines s). field_name l \<noteq> Some ''Content-Type'') \<longrightarrow>
        receiveMessage mem parse messageFromJson s = accepted"
  proof
    assume "\<forall>l \<in> set (header_lines s). field_name l \<noteq> Some ''Content-Type''"
    from readMessageHeader_default_contentType [OF assms(1) this] assms(2)
    have "ctype = default_contentType"
      by simp
    then show "receiveMessage mem parse messageFromJson s = accepted"
      by (simp add: read checkContentType_default)
  qed
  from a b c d show ?thesis
    by (intro conjI)
qed

theorem content_type_validation_witness:
  "(readMessageHeader
      (''Content-Length: 2'' @ [CR, LF] @ ''Content-Type: application/vscode-jsonrpc; charset=UTF-8''
         @ [CR, LF, CR, LF] @ ''{}'' @ ''next'')
      :: (unit failure + MessageHeader) \<times> istream)
     = (Inr \<lparr>contentLength = 2, contentType = ''application/vscode-jsonrpc; charset=UTF-8''\<rparr>,
        ''{}'' @ ''next'')
   \<and> (2 :: nat) \<le> max_size small_machine \<and> (2 :: nat) \<le> available small_machine
   \<and> prefix ''application/vscode-jsonrpc'' ''application/vscode-jsonrpc; charset=UTF-8''
   \<and> find_str ''charset='' ''application/vscode-jsonrpc; charset=UTF-8''
       = Some (length ''application/vscode-jsonrpc; '')
   \<and> receiveMessage small_machine (Inr :: string \<Rightarrow> unit + string) (Inr :: string \<Rightarrow> unit + string)
      (''Content-Length: 2'' @ [CR, LF] @ ''Content-Type: application/vscode-jsonrpc; charset=UTF-8''
         @ [CR, LF, CR, LF] @ ''{}'' @ ''next'')
     = (Inl (ProtocolError ''Unsupported or invalid character encoding: UTF-8''), ''next'')"
proof -
  let ?ctype = "''application/vscode-jsonrpc; charset=UTF-8''"
  let ?pre = "''application/vscode-jsonrpc; ''"
  let ?header = "\<lparr>contentLength = 2, contentType = ?ctype\<rparr>"
  have h: "(readMessageHeader
      (''Content-Length: 2'' @ [CR, LF] @ ''Content-Type: application/vscode-jsonrpc; charset=UTF-8''
         @ [CR, LF, CR, LF] @ ''{}'' @ ''next'')
      :: (unit failure + MessageHeader) \<times> istream)
     = (Inr ?header, ''{}'' @ ''next'')"
    by (simp add: receive_eval)
  have ct: "contentType ?header = ?ctype" and n: "contentLength ?header = 2"
    by simp_all
  have m: "(2 :: nat) \<le> max_size small_machine" "(2 :: nat) \<le> available small_machine"
    by (simp_all add: small_machine_def)
  have p: "prefix ''application/vscode-jsonrpc'' ?ctype"
    by simp
  have f: "find_str ''charset='' ?ctype = Some (length ?pre)"
    by simp
  from find_str_Some [OF f]
  have first: "\<forall>j < length ?pre. \<not> prefix ''charset='' (drop j ?ctype)"
    by (rule conjunct2 [THEN conjunct2])
  have shape: "?ctype = ?pre @ ''charset='' @ ''UTF-8'' @ []"
    by simp
  have semi: "CHR '';'' \<notin> set ''UTF-8''"
    by simp
  have t: "trimView ''UTF-8'' = ''UTF-8''"
    by (simp add: trimView_def isspace_def)
  note all = content_type_validation [OF h ct n m, where pre = ?pre and cs = "''UTF-8''"
      and rest = "[]" and parse = Inr and messageFromJson = Inr]
  from all [THEN conjunct2, THEN conjunct1] p shape first semi
  have "receiveMessage small_machine (Inr :: string \<Rightarrow> unit + string)
          (Inr :: string \<Rightarrow> unit + string)
      (''Content-Length: 2'' @ [CR, LF] @ ''Content-Type: application/vscode-jsonrpc; charset=UTF-8''
         @ [CR, LF, CR, LF] @ ''{}'' @ ''next'')
     = (Inl (ProtocolError (''Unsupported or invalid character encoding: '' @ trimView ''UTF-8'')),
        drop 2 (''{}'' @ ''next''))"
    unfolding t by blast
  then have "receiveMessage small_machine (Inr :: string \<Rightarrow> unit + string)
          (Inr :: string \<Rightarrow> unit + string)
      (''Content-Length: 2'' @ [CR, LF] @ ''Content-Type: application/vscode-jsonrpc; charset=UTF-8''
         @ [CR, LF, CR, LF] @ ''{}'' @ ''next'')
     = (Inl (ProtocolError ''Unsupported or invalid character encoding: UTF-8''), ''next'')"
    by (simp add: t)
  with h m p f show ?thesis
    by (intro conjI)
qed

text \<open>The cases of the specification's test list, each on a whole message.\<close>

lemma content_type_text_plain_refused:
  "receiveMessage small_machine (Inr :: string \<Rightarrow> unit + string) (Inr :: string \<Rightarrow> unit + string)
     (''Content-Length: 2'' @ [CR, LF] @ ''Content-Type: text/plain'' @ [CR, LF, CR, LF] @ ''{}'')
   = (Inl (ProtocolError ''Unsupported or invalid content type: text/plain''), [])"
  by (simp add: receive_eval)

lemma charset_latin1_refused:
  "receiveMessage small_machine (Inr :: string \<Rightarrow> unit + string) (Inr :: string \<Rightarrow> unit + string)
     (''Content-Length: 2'' @ [CR, LF] @ ''Content-Type: application/vscode-jsonrpc; charset=latin1''
        @ [CR, LF, CR, LF] @ ''{}'')
   = (Inl (ProtocolError ''Unsupported or invalid character encoding: latin1''), [])"
  by (simp add: receive_eval)

lemma charset_utf8_accepted:
  "receiveMessage small_machine (Inr :: string \<Rightarrow> unit + string) (Inr :: string \<Rightarrow> unit + string)
     (''Content-Length: 2'' @ [CR, LF] @ ''Content-Type: application/vscode-jsonrpc; charset=utf8''
        @ [CR, LF, CR, LF] @ ''{}'')
   = (Inr ''{}'', [])"
  by (simp add: receive_eval)

lemma no_charset_accepted:
  "receiveMessage small_machine (Inr :: string \<Rightarrow> unit + string) (Inr :: string \<Rightarrow> unit + string)
     (''Content-Length: 2'' @ [CR, LF] @ ''Content-Type: application/vscode-jsonrpc''
        @ [CR, LF, CR, LF] @ ''{}'')
   = (Inr ''{}'', [])"
  by (simp add: receive_eval)

text \<open>
  Further content types that show the search: a parameter name in capitals and
  a space before the equals sign are not found, and a semicolon ends the value.
\<close>

lemma charset_name_is_case_sensitive:
  "receiveMessage small_machine (Inr :: string \<Rightarrow> unit + string) (Inr :: string \<Rightarrow> unit + string)
     (''Content-Length: 2'' @ [CR, LF] @ ''Content-Type: application/vscode-jsonrpc; Charset=latin1''
        @ [CR, LF, CR, LF] @ ''{}'')
   = (Inr ''{}'', [])"
  by (simp add: receive_eval)

lemma charset_without_space_refused:
  "receiveMessage small_machine (Inr :: string \<Rightarrow> unit + string) (Inr :: string \<Rightarrow> unit + string)
     (''Content-Length: 2'' @ [CR, LF] @ ''Content-Type: application/vscode-jsonrpc;charset=latin1''
        @ [CR, LF, CR, LF] @ ''{}'')
   = (Inl (ProtocolError ''Unsupported or invalid character encoding: latin1''), [])"
  by (simp add: receive_eval)

lemma charset_ends_at_semicolon:
  "receiveMessage small_machine (Inr :: string \<Rightarrow> unit + string) (Inr :: string \<Rightarrow> unit + string)
     (''Content-Length: 2'' @ [CR, LF]
        @ ''Content-Type: application/vscode-jsonrpc; charset= utf-8 ; q=1''
        @ [CR, LF, CR, LF] @ ''{}'')
   = (Inr ''{}'', [])"
  by (simp add: receive_eval)

subsection \<open>C4: the content length before the body is transferred\<close>

text \<open>
  Claim C4 as stated does not hold on the receive path: \<^verbatim>\<open>receiveMessage\<close>
  makes no check of \<open>contentLength\<close> between the header and the body. A header
  that declares the length zero is parsed, the read of zero bytes is made, and
  the empty body is handed to the JSON parser (the identity here, so that the
  body shows in the result); the bytes that follow stay in the stream.
\<close>

theorem zero_length_reaches_body_read:
  "(readMessageHeader (''Content-Length: 0'' @ [CR, LF, CR, LF] @ ''{}'')
      :: (unit failure + MessageHeader) \<times> istream)
     = (Inr \<lparr>contentLength = 0, contentType = default_contentType\<rparr>, ''{}'')
   \<and> receiveMessage small_machine (Inr :: string \<Rightarrow> unit + string) (Inr :: string \<Rightarrow> unit + string)
       (''Content-Length: 0'' @ [CR, LF, CR, LF] @ ''{}'')
     = (Inr [], ''{}'')"
  by (simp add: receive_eval)

text \<open>
  Claim C4, as the code has it. On the send path the length in the header is
  the length of the body and is positive before anything is written:
  \<^verbatim>\<open>writeMessageHeader\<close> writes only for a positive \<open>contentLength\<close>,
  \<^verbatim>\<open>writeMessage\<close> writes header and body only for a body that is not empty,
  and for an empty one it stops at the assertion with the stream untouched. On
  the receive path the length is not checked for being positive; what it meets
  is the allocation of the buffer. For every header that \<^verbatim>\<open>readMessageHeader\<close>
  returns and every \<open>contentLength\<close> that \<^verbatim>\<open>content.resize\<close> can serve, zero among
  them, the read of \<open>contentLength\<close> bytes is made and the call goes on to the
  validation of the content type. Where \<^verbatim>\<open>content.resize\<close> throws, the call ends
  with its exception and the body is unread.
\<close>

theorem length_positive_on_send_unchecked_on_receive:
  fixes parse :: "string \<Rightarrow> 'x + 'j" and messageFromJson :: "'j \<Rightarrow> 'x + 'r"
  shows
    "((writeMessageHeader header out :: ('x failure + unit) \<times> ostream) = (Inr (), out')
        \<longrightarrow> 0 < contentLength header)
   \<and> ((writeMessage content out :: ('x failure + unit) \<times> ostream) = (Inr (), out')
        \<longrightarrow> 0 < length content \<and> written out' = written out @ wire_frame content)
   \<and> (content = [] \<longrightarrow>
        (writeMessage content out :: ('x failure + unit) \<times> ostream)
          = (Inl (AssertionFailure ''header.contentLength > 0''), out))
   \<and> ((readMessageHeader s :: ('x failure + MessageHeader) \<times> istream) = (Inr h, after)
        \<and> contentLength h \<le> max_size mem \<and> contentLength h \<le> available mem \<longrightarrow>
        receiveMessage mem parse messageFromJson s =
          (case checkContentType (contentType h) of
             Inl e \<Rightarrow> Inl e
           | Inr _ \<Rightarrow> decode parse messageFromJson
                       (take (contentLength h) after
                          @ replicate (contentLength h - length after) (CHR 0x00)),
           drop (contentLength h) after))
   \<and> ((readMessageHeader s :: ('x failure + MessageHeader) \<times> istream) = (Inr h, after)
        \<and> max_size mem < contentLength h \<longrightarrow>
        receiveMessage mem parse messageFromJson s = (Inl LengthError, after))
   \<and> ((readMessageHeader s :: ('x failure + MessageHeader) \<times> istream) = (Inr h, after)
        \<and> contentLength h \<le> max_size mem \<and> available mem < contentLength h \<longrightarrow>
        receiveMessage mem parse messageFromJson s = (Inl BadAlloc, after))"
proof -
  have a: "(writeMessageHeader header out :: ('x failure + unit) \<times> ostream) = (Inr (), out')
        \<longrightarrow> 0 < contentLength header"
    by (auto simp: writeMessageHeader_def split: if_splits)
  have b: "(writeMessage content out :: ('x failure + unit) \<times> ostream) = (Inr (), out')
        \<longrightarrow> 0 < length content \<and> written out' = written out @ wire_frame content"
  proof (cases "content = []")
    case True
    then show ?thesis
      by (simp add: writeMessage_empty)
  next
    case False
    then have "(writeMessage content out :: ('x failure + unit) \<times> ostream) =
            (Inr (), \<lparr>written = written out @ wire_frame content,
                        flushed = length (written out @ wire_frame content)\<rparr>)"
      by (rule writeMessage_nonempty)
    with False show ?thesis
      by auto
  qed
  have c: "content = [] \<longrightarrow>
        (writeMessage content out :: ('x failure + unit) \<times> ostream)
          = (Inl (AssertionFailure ''header.contentLength > 0''), out)"
    by (simp add: writeMessage_empty)
  have d: "(readMessageHeader s :: ('x failure + MessageHeader) \<times> istream) = (Inr h, after)
        \<and> contentLength h \<le> max_size mem \<and> contentLength h \<le> available mem \<longrightarrow>
        receiveMessage mem parse messageFromJson s =
          (case checkContentType (contentType h) of
             Inl e \<Rightarrow> Inl e
           | Inr _ \<Rightarrow> decode parse messageFromJson
                       (take (contentLength h) after
                          @ replicate (contentLength h - length after) (CHR 0x00)),
           drop (contentLength h) after)"
  proof
    assume h: "(readMessageHeader s :: ('x failure + MessageHeader) \<times> istream) = (Inr h, after)
        \<and> contentLength h \<le> max_size mem \<and> contentLength h \<le> available mem"
    then have "receiveMessage mem parse messageFromJson s =
           (case checkContentType (contentType h) of
              Inl e \<Rightarrow> (Inl e, drop (contentLength h) after)
            | Inr _ \<Rightarrow>
                (decode parse messageFromJson
                   (take (contentLength h) after
                      @ replicate (contentLength h - length after) (CHR 0x00)),
                 drop (contentLength h) after))"
      by (intro receiveMessage_body_read) blast+
    then show "receiveMessage mem parse messageFromJson s =
          (case checkContentType (contentType h) of
             Inl e \<Rightarrow> Inl e
           | Inr _ \<Rightarrow> decode parse messageFromJson
                       (take (contentLength h) after
                          @ replicate (contentLength h - length after) (CHR 0x00)),
           drop (contentLength h) after)"
      by (simp split: sum.splits)
  qed
  have e: "(readMessageHeader s :: ('x failure + MessageHeader) \<times> istream) = (Inr h, after)
        \<and> max_size mem < contentLength h \<longrightarrow>
        receiveMessage mem parse messageFromJson s = (Inl LengthError, after)"
  proof
    assume h: "(readMessageHeader s :: ('x failure + MessageHeader) \<times> istream) = (Inr h, after)
        \<and> max_size mem < contentLength h"
    then have r: "(readMessageHeader s :: ('x failure + MessageHeader) \<times> istream) = (Inr h, after)"
      by blast
    from h show "receiveMessage mem parse messageFromJson s = (Inl LengthError, after)"
      unfolding receiveMessage_header_read [OF r] by (simp add: resize_def)
  qed
  have f: "(readMessageHeader s :: ('x failure + MessageHeader) \<times> istream) = (Inr h, after)
        \<and> contentLength h \<le> max_size mem \<and> available mem < contentLength h \<longrightarrow>
        receiveMessage mem parse messageFromJson s = (Inl BadAlloc, after)"
  proof
    assume h: "(readMessageHeader s :: ('x failure + MessageHeader) \<times> istream) = (Inr h, after)
        \<and> contentLength h \<le> max_size mem \<and> available mem < contentLength h"
    then have r: "(readMessageHeader s :: ('x failure + MessageHeader) \<times> istream) = (Inr h, after)"
      by blast
    from h show "receiveMessage mem parse messageFromJson s = (Inl BadAlloc, after)"
      unfolding receiveMessage_header_read [OF r] by (simp add: resize_def)
  qed
  from a b c d e f show ?thesis
    by (intro conjI)
qed

theorem length_positive_on_send_unchecked_on_receive_witness:
  "(writeMessage ''{}'' \<lparr>written = [], flushed = 0\<rparr> :: (unit failure + unit) \<times> ostream)
     = (Inr (), \<lparr>written = ''Content-Length: 2'' @ [CR, LF, CR, LF] @ ''{}'',
                 flushed = length (''Content-Length: 2'' @ [CR, LF, CR, LF] @ ''{}'')\<rparr>)
   \<and> 0 < length ''{}''
   \<and> (writeMessage [] \<lparr>written = [], flushed = 0\<rparr> :: (unit failure + unit) \<times> ostream)
     = (Inl (AssertionFailure ''header.contentLength > 0''), \<lparr>written = [], flushed = 0\<rparr>)
   \<and> (readMessageHeader (''Content-Length: 0'' @ [CR, LF, CR, LF] @ ''{}'')
      :: (unit failure + MessageHeader) \<times> istream)
     = (Inr \<lparr>contentLength = 0, contentType = default_contentType\<rparr>, ''{}'')
   \<and> receiveMessage small_machine (Inr :: string \<Rightarrow> unit + string) (Inr :: string \<Rightarrow> unit + string)
       (''Content-Length: 0'' @ [CR, LF, CR, LF] @ ''{}'')
     = (Inr [], ''{}'')
   \<and> (readMessageHeader (''Content-Length: 18446744073709551615'' @ [CR, LF, CR, LF] @ ''{}'')
      :: (unit failure + MessageHeader) \<times> istream)
     = (Inr \<lparr>contentLength = 18446744073709551615, contentType = default_contentType\<rparr>, ''{}'')
   \<and> max_size small_machine < 18446744073709551615
   \<and> receiveMessage small_machine (Inr :: string \<Rightarrow> unit + string) (Inr :: string \<Rightarrow> unit + string)
       (''Content-Length: 18446744073709551615'' @ [CR, LF, CR, LF] @ ''{}'')
     = (Inl LengthError, ''{}'')"
proof -
  have w: "(writeMessage ''{}'' \<lparr>written = [], flushed = 0\<rparr> :: (unit failure + unit) \<times> ostream)
     = (Inr (), \<lparr>written = ''Content-Length: 2'' @ [CR, LF, CR, LF] @ ''{}'',
                 flushed = length (''Content-Length: 2'' @ [CR, LF, CR, LF] @ ''{}'')\<rparr>)"
    by (simp add: writeMessage_nonempty wire_frame_def to_string_small digit_char_def)
  have r: "(readMessageHeader (''Content-Length: 0'' @ [CR, LF, CR, LF] @ ''{}'')
      :: (unit failure + MessageHeader) \<times> istream)
     = (Inr \<lparr>contentLength = 0, contentType = default_contentType\<rparr>, ''{}'')"
    by (simp add: receive_eval)
  have big: "(readMessageHeader (''Content-Length: 18446744073709551615'' @ [CR, LF, CR, LF] @ ''{}'')
      :: (unit failure + MessageHeader) \<times> istream)
     = (Inr \<lparr>contentLength = 18446744073709551615, contentType = default_contentType\<rparr>, ''{}'')"
    by (simp add: receive_eval)
  have m: "max_size small_machine < 18446744073709551615"
    by (simp add: small_machine_def)
  from length_positive_on_send_unchecked_on_receive
         [where 'x = unit and content = "''{}''" and out = "\<lparr>written = [], flushed = 0\<rparr>"
            and s = "''Content-Length: 0'' @ [CR, LF, CR, LF] @ ''{}''"
            and parse = Inr and messageFromJson = Inr and mem = small_machine
            and h = "\<lparr>contentLength = 0, contentType = default_contentType\<rparr>" and after = "''{}''"]
       length_positive_on_send_unchecked_on_receive
         [where 'x = unit and content = "[]" and out = "\<lparr>written = [], flushed = 0\<rparr>"
            and s = "''Content-Length: 18446744073709551615'' @ [CR, LF, CR, LF] @ ''{}''"
            and parse = "Inr :: string \<Rightarrow> unit + string"
            and messageFromJson = "Inr :: string \<Rightarrow> unit + string" and mem = small_machine
            and h = "\<lparr>contentLength = 18446744073709551615, contentType = default_contentType\<rparr>"
            and after = "''{}''"]
       w r big m
  show ?thesis
    by (simp add: checkContentType_default decode_def small_machine_def)
qed

text \<open>
  The same failure with a content type that would be refused: the exception of
  \<^verbatim>\<open>content.resize\<close> comes first, and the two bytes of the body are unread.
\<close>

lemma huge_length_fails_before_validation:
  "receiveMessage small_machine (Inr :: string \<Rightarrow> unit + string) (Inr :: string \<Rightarrow> unit + string)
     (''Content-Length: 18446744073709551615'' @ [CR, LF] @ ''Content-Type: text/plain''
        @ [CR, LF, CR, LF] @ ''{}'')
   = (Inl LengthError, ''{}'')"
  by (simp add: receive_eval)

subsection \<open>C5: the bytes of an outgoing message\<close>

text \<open>
  Claim C5. Every \<^verbatim>\<open>sendMessage\<close> and every \<^verbatim>\<open>sendMessageBatch\<close> whose
  serialised body is not empty (an empty one stops at the assertion, claim C8)
  appends to the output stream exactly \<^verbatim>\<open>Content-Length: <n>\<close>, CR LF CR LF and
  the body, and nothing else. The digits of \<open>n\<close> denote the length of the body
  that follows, the text \<^verbatim>\<open>Content-Type\<close> does not occur in the header that is
  written, and after the call every byte written so far has been flushed.
\<close>

theorem send_writes_one_exact_frame:
  "(stringify (toJson message) = body \<and> body \<noteq> [] \<longrightarrow>
      (sendMessage toJson stringify message out :: ('x failure + unit) \<times> ostream)
        = (Inr (), \<lparr>written = written out @ ''Content-Length: '' @ to_string (length body)
                                   @ [CR, LF, CR, LF] @ body,
                    flushed = length (written out @ ''Content-Length: '' @ to_string (length body)
                                   @ [CR, LF, CR, LF] @ body)\<rparr>))
   \<and> (stringify (array (map toJson batch)) = body \<and> body \<noteq> [] \<longrightarrow>
      (sendMessageBatch toJson array stringify batch out :: ('x failure + unit) \<times> ostream)
        = (Inr (), \<lparr>written = written out @ ''Content-Length: '' @ to_string (length body)
                                   @ [CR, LF, CR, LF] @ body,
                    flushed = length (written out @ ''Content-Length: '' @ to_string (length body)
                                   @ [CR, LF, CR, LF] @ body)\<rparr>))
   \<and> decimal_value (to_string (length body)) = length body
   \<and> find_str ''Content-Type'' (''Content-Length: '' @ to_string (length body) @ [CR, LF, CR, LF])
       = None"
  using header_text_has_no_content_type [of "length body"]
  by (auto simp: sendMessage_def sendMessageBatch_def writeJsonMessage_nonempty
        wire_frame_def decimal_value_to_string)

theorem send_writes_one_exact_frame_witness:
  "sendMessage id id ''[{},{}]'' \<lparr>written = ''x'', flushed = 1\<rparr>
     = ((Inr (), \<lparr>written = ''xContent-Length: 7'' @ [CR, LF, CR, LF] @ ''[{},{}]'',
                 flushed = length (''xContent-Length: 7'' @ [CR, LF, CR, LF] @ ''[{},{}]'')\<rparr>)
        :: (unit failure + unit) \<times> ostream)
   \<and> sendMessageBatch id concat id [''[{}'', '',{}]''] \<lparr>written = ''x'', flushed = 1\<rparr>
     = ((Inr (), \<lparr>written = ''xContent-Length: 7'' @ [CR, LF, CR, LF] @ ''[{},{}]'',
                 flushed = length (''xContent-Length: 7'' @ [CR, LF, CR, LF] @ ''[{},{}]'')\<rparr>)
        :: (unit failure + unit) \<times> ostream)"
  using send_writes_one_exact_frame
      [where 'x = unit, of id id "''[{},{}]''" "''[{},{}]''" "\<lparr>written = ''x'', flushed = 1\<rparr>"
         concat "[''[{}'', '',{}]'']"]
  by (simp add: to_string_small digit_char_def)

subsection \<open>C6: header fields\<close>

text \<open>
  Claim C6, as the code has it. A header line \<open>name:val\<close> is split at its first
  colon; the trimmed \<open>name\<close> is the field name and the trimmed \<open>val\<close> the value.
  A \<^verbatim>\<open>Content-Length\<close> whose value is a decimal number that fits
  \<^verbatim>\<open>std::size_t\<close> overwrites \<open>contentLength\<close>, a \<^verbatim>\<open>Content-Type\<close> stores the
  trimmed value, and a line with any other name leaves the header as it is. None
  of them raises an error. A line that contains no colon is not rejected either:
  it is skipped like a field with an unknown name.
\<close>

theorem header_line_parsed:
  assumes "CHR '':'' \<notin> set name" and "LF \<notin> set name" and "LF \<notin> set val"
  shows
    "(trimView name = ''Content-Length'' \<and> trimView val \<noteq> []
        \<and> (\<forall>c \<in> set (trimView val). is_digit c) \<and> decimal_value (trimView val) \<le> SIZE_MAX \<longrightarrow>
      (readNextMessageHeaderField header (name @ CHR '':'' # val @ LF # rest)
         :: ('x failure + MessageHeader) \<times> istream)
        = (Inr (header\<lparr>contentLength := decimal_value (trimView val)\<rparr>), rest))
   \<and> (trimView name = ''Content-Type'' \<longrightarrow>
      (readNextMessageHeaderField header (name @ CHR '':'' # val @ LF # rest)
         :: ('x failure + MessageHeader) \<times> istream)
        = (Inr (header\<lparr>contentType := trimView val\<rparr>), rest))
   \<and> (trimView name \<noteq> ''Content-Length'' \<and> trimView name \<noteq> ''Content-Type'' \<longrightarrow>
      (readNextMessageHeaderField header (name @ CHR '':'' # val @ LF # rest)
         :: ('x failure + MessageHeader) \<times> istream)
        = (Inr header, rest))
   \<and> (CHR '':'' \<notin> set val \<longrightarrow>
      (readNextMessageHeaderField header (name @ val @ LF # rest)
         :: ('x failure + MessageHeader) \<times> istream)
        = (Inr header, rest))"
proof (intro conjI impI)
  assume a: "trimView name = ''Content-Length'' \<and> trimView val \<noteq> []
        \<and> (\<forall>c \<in> set (trimView val). is_digit c) \<and> decimal_value (trimView val) \<le> SIZE_MAX"
  then have "from_chars (trimView val) = Some (decimal_value (trimView val))"
    by (intro from_chars_digits) simp_all
  with a show "(readNextMessageHeaderField header (name @ CHR '':'' # val @ LF # rest)
         :: ('x failure + MessageHeader) \<times> istream)
        = (Inr (header\<lparr>contentLength := decimal_value (trimView val)\<rparr>), rest)"
    by (simp add: field_with_colon [OF assms])
next
  assume "trimView name = ''Content-Type''"
  then show "(readNextMessageHeaderField header (name @ CHR '':'' # val @ LF # rest)
         :: ('x failure + MessageHeader) \<times> istream)
        = (Inr (header\<lparr>contentType := trimView val\<rparr>), rest)"
    by (simp add: field_with_colon [OF assms])
next
  assume "trimView name \<noteq> ''Content-Length'' \<and> trimView name \<noteq> ''Content-Type''"
  then show "(readNextMessageHeaderField header (name @ CHR '':'' # val @ LF # rest)
         :: ('x failure + MessageHeader) \<times> istream)
        = (Inr header, rest)"
    by (simp add: field_with_colon [OF assms])
next
  assume "CHR '':'' \<notin> set val"
  with assms have "CHR '':'' \<notin> set (name @ val)" "LF \<notin> set (name @ val)"
    by simp_all
  from field_without_colon [OF this, of header rest]
  show "(readNextMessageHeaderField header (name @ val @ LF # rest)
         :: ('x failure + MessageHeader) \<times> istream)
        = (Inr header, rest)"
    by simp
qed

theorem header_line_parsed_witness:
  "(readNextMessageHeaderField \<lparr>contentLength = 0, contentType = ''t''\<rparr>
      (''Content-Length: 42'' @ [CR, LF] @ ''rest'') :: (unit failure + MessageHeader) \<times> istream)
     = (Inr \<lparr>contentLength = 42, contentType = ''t''\<rparr>, ''rest'')
   \<and> (readNextMessageHeaderField \<lparr>contentLength = 0, contentType = ''t''\<rparr>
      (''X-Unknown 42'' @ [CR, LF] @ ''rest'') :: (unit failure + MessageHeader) \<times> istream)
     = (Inr \<lparr>contentLength = 0, contentType = ''t''\<rparr>, ''rest'')"
  using header_line_parsed [where 'x = unit, of "''Content-Length''" "'' 42'' @ [CR]"
      "\<lparr>contentLength = 0, contentType = ''t''\<rparr>" "''rest''"]
    header_line_parsed [where 'x = unit, of "''X-Unknown''" "'' 42'' @ [CR]"
      "\<lparr>contentLength = 0, contentType = ''t''\<rparr>" "''rest''"]
  by (simp add: trimView_def isspace_def is_digit_def decimal_value_def digit_value_def
        SIZE_MAX_def)

text \<open>
  Claim C6 as stated does not hold where it requires a colon on every line that
  is not empty: the header below has a line without one, and
  \<^verbatim>\<open>readMessageHeader\<close> returns the default header for it.
\<close>

theorem line_without_colon_counterexample:
  "(readMessageHeader (''no separator here'' @ [CR, LF, CR, LF] @ ''{}'')
      :: (unit failure + MessageHeader) \<times> istream)
     = (Inr default_header, ''{}'')"
  by (simp add: readMessageHeader_def header_loop_field header_loop_CR
        readNextMessageHeaderField_def peek_def getline_def get_def)

subsection \<open>C7: sending, then receiving\<close>

text \<open>
  Claim C7. Let the JSON codec and the message model be inverse to each other
  on the message: parsing the serialised JSON value of the message gives that
  value back, and the message model rebuilds the message from it. Then
  \<^verbatim>\<open>sendMessage\<close> on a fresh output stream succeeds, and \<^verbatim>\<open>receiveMessage\<close>
  on the bytes it has written returns the message and leaves nothing unread.
  The serialisation is not empty (otherwise \<^verbatim>\<open>sendMessage\<close> stops at its
  assertion) and, as every \<^verbatim>\<open>std::string\<close>, not longer than \<open>SIZE_MAX\<close> and
  than \<^verbatim>\<open>max_size()\<close>; and the receiver has the memory for a buffer of its
  length.
\<close>

theorem send_then_receive_roundtrip:
  assumes "parse (stringify (toJson message)) = Inr (toJson message)"
    and "messageFromJson (toJson message) = Inr message"
    and "stringify (toJson message) \<noteq> []"
    and "length (stringify (toJson message)) \<le> SIZE_MAX"
    and "length (stringify (toJson message)) \<le> max_size mem"
    and "length (stringify (toJson message)) \<le> available mem"
    and "written out = []"
  shows "fst (sendMessage toJson stringify message out :: ('x failure + unit) \<times> ostream) = Inr ()
       \<and> receiveMessage mem (parse :: string \<Rightarrow> 'x + 'j) messageFromJson
           (written (snd (sendMessage toJson stringify message out
                            :: ('x failure + unit) \<times> ostream)))
         = (Inr message, [])"
proof -
  let ?body = "stringify (toJson message)"
  have sent: "(sendMessage toJson stringify message out :: ('x failure + unit) \<times> ostream)
                = (Inr (), \<lparr>written = wire_frame ?body, flushed = length (wire_frame ?body)\<rparr>)"
    using assms(3,7) by (simp add: sendMessage_def writeJsonMessage_nonempty)
  have "receiveMessage mem parse messageFromJson (wire_frame ?body @ [])
          = (decode parse messageFromJson ?body, [])"
    by (rule receive_wire_frame [OF assms(4-6)])
  with assms(1,2) have "receiveMessage mem parse messageFromJson (wire_frame ?body) = (Inr message, [])"
    by (simp add: decode_def)
  with sent show ?thesis
    by simp
qed

theorem send_then_receive_roundtrip_witness:
  "fst (sendMessage id id ''{\"id\":1}'' \<lparr>written = [], flushed = 0\<rparr>
          :: (unit failure + unit) \<times> ostream) = Inr ()
   \<and> receiveMessage small_machine (Inr :: string \<Rightarrow> unit + string) (Inr :: string \<Rightarrow> unit + string)
       (written (snd (sendMessage id id ''{\"id\":1}'' \<lparr>written = [], flushed = 0\<rparr>
                        :: (unit failure + unit) \<times> ostream)))
     = (Inr ''{\"id\":1}'', [])"
  using send_then_receive_roundtrip [where 'x = unit and parse = Inr and toJson = id
      and stringify = id and message = "''{\"id\":1}''" and messageFromJson = Inr
      and out = "\<lparr>written = [], flushed = 0\<rparr>" and mem = small_machine]
  by (simp add: SIZE_MAX_def small_machine_def)

subsection \<open>C8: an empty serialisation\<close>

text \<open>
  Claim C8. When the JSON serialisation of the outgoing message is the empty
  string, \<^verbatim>\<open>sendMessage\<close> stops at \<^verbatim>\<open>assert(!contentStr.empty())\<close>: the call
  fails with that assertion and the output stream is as it was, so no frame with
  a zero length has been written.
\<close>

theorem send_empty_serialisation_asserts:
  "stringify (toJson message) = [] \<Longrightarrow>
   (sendMessage toJson stringify message out :: ('x failure + unit) \<times> ostream)
     = (Inl (AssertionFailure ''!contentStr.empty()''), out)"
  by (simp add: sendMessage_def writeJsonMessage_empty)

theorem send_empty_serialisation_asserts_witness:
  "sendMessage (\<lambda>m :: nat. m) (\<lambda>j. []) 0 \<lparr>written = ''abc'', flushed = 3\<rparr>
     = ((Inl (AssertionFailure ''!contentStr.empty()''), \<lparr>written = ''abc'', flushed = 3\<rparr>)
        :: (unit failure + unit) \<times> ostream)"
  using send_empty_serialisation_asserts
    [where 'x = unit, of "\<lambda>j. []" "\<lambda>m :: nat. m" 0 "\<lparr>written = ''abc'', flushed = 3\<rparr>"]
  by simp

subsection \<open>C9: the lock\<close>

text \<open>
  Claim C9 is about two threads inside \<^verbatim>\<open>sendMessage\<close> at the same time. Both
  \<^verbatim>\<open>receiveMessage\<close> and \<^verbatim>\<open>writeMessage\<close> begin with a \<^verbatim>\<open>std::lock_guard\<close> on
  the one mutex \<^verbatim>\<open>m_writeMutex\<close>; what this excludes is an interleaving of
  threads, and the functions of this theory are sequential: they have no state
  in which two calls overlap. The claim is not stated here.
\<close>

subsection \<open>C10: a content length that is not a number\<close>

lemma from_chars_leading_digits:
  assumes "ds \<noteq> []" and "\<forall>c \<in> set ds. is_digit c" and "junk = [] \<or> \<not> is_digit (hd junk)"
    and "decimal_value ds \<le> SIZE_MAX"
  shows "from_chars (ds @ junk) = Some (decimal_value ds)"
proof -
  have "takeWhile is_digit junk = []"
    using assms(3) by (cases junk) auto
  with assms(2) have tw: "takeWhile is_digit (ds @ junk) = ds"
    by (simp add: takeWhile_append2)
  show ?thesis
    unfolding from_chars_def Let_def tw using assms(1,4) by simp
qed

text \<open>
  Claim C10 as stated does not hold for a value that is not an unsigned integer
  and begins with decimal digits. \<^verbatim>\<open>std::from_chars\<close> converts the digits, stops
  at the first other character and reports success; \<open>contentLength\<close> is
  overwritten. Here the header has the length 7 and the line gives the value
  \<^verbatim>\<open>12abc\<close>: no error is raised and the length is 12 afterwards.
\<close>

theorem length_prefix_overwrites:
  "(readNextMessageHeaderField \<lparr>contentLength = 7, contentType = ''t''\<rparr>
      (''Content-Length: 12abc'' @ [CR, LF] @ ''rest'')
        :: (unit failure + MessageHeader) \<times> istream)
     = (Inr \<lparr>contentLength = 12, contentType = ''t''\<rparr>, ''rest'')"
  by (simp add: readNextMessageHeaderField_def peek_def getline_def trimView_def isspace_def
        is_digit_def from_chars_def decimal_value_def digit_value_def SIZE_MAX_def Let_def)

text \<open>
  Claim C10, as the code has it. The result of \<^verbatim>\<open>std::from_chars\<close> is dropped,
  so a \<^verbatim>\<open>Content-Length\<close> line never raises an error, whatever its value.
  \<^item> When the trimmed value is empty, or does not begin with a decimal digit (as
    non-numeric text), or its leading digits denote more than \<open>SIZE_MAX\<close>, the
    conversion fails and the header, \<open>contentLength\<close> included, is as it was.
  \<^item> When the trimmed value begins with decimal digits that denote a number up to
    \<open>SIZE_MAX\<close>, whatever follows them, \<open>contentLength\<close> becomes that number.
\<close>

theorem content_length_conversion:
  assumes "CHR '':'' \<notin> set name" and "LF \<notin> set name" and "LF \<notin> set val"
    and "trimView name = ''Content-Length''"
  shows
    "(trimView val = [] \<or> \<not> is_digit (hd (trimView val))
        \<or> SIZE_MAX < decimal_value (takeWhile is_digit (trimView val)) \<longrightarrow>
      (readNextMessageHeaderField header (name @ CHR '':'' # val @ LF # rest)
         :: ('x failure + MessageHeader) \<times> istream)
        = (Inr header, rest))
   \<and> (trimView val = ds @ junk \<and> ds \<noteq> [] \<and> (\<forall>c \<in> set ds. is_digit c)
        \<and> (junk = [] \<or> \<not> is_digit (hd junk)) \<and> decimal_value ds \<le> SIZE_MAX \<longrightarrow>
      (readNextMessageHeaderField header (name @ CHR '':'' # val @ LF # rest)
         :: ('x failure + MessageHeader) \<times> istream)
        = (Inr (header\<lparr>contentLength := decimal_value ds\<rparr>), rest))"
proof (rule conjI)
  show "trimView val = [] \<or> \<not> is_digit (hd (trimView val))
        \<or> SIZE_MAX < decimal_value (takeWhile is_digit (trimView val)) \<longrightarrow>
      (readNextMessageHeaderField header (name @ CHR '':'' # val @ LF # rest)
         :: ('x failure + MessageHeader) \<times> istream)
        = (Inr header, rest)"
  proof
    assume "trimView val = [] \<or> \<not> is_digit (hd (trimView val))
        \<or> SIZE_MAX < decimal_value (takeWhile is_digit (trimView val))"
    from from_chars_fails [OF this] assms(4)
    show "(readNextMessageHeaderField header (name @ CHR '':'' # val @ LF # rest)
         :: ('x failure + MessageHeader) \<times> istream)
        = (Inr header, rest)"
      by (simp add: field_with_colon [OF assms(1-3)])
  qed
next
  show "trimView val = ds @ junk \<and> ds \<noteq> [] \<and> (\<forall>c \<in> set ds. is_digit c)
        \<and> (junk = [] \<or> \<not> is_digit (hd junk)) \<and> decimal_value ds \<le> SIZE_MAX \<longrightarrow>
      (readNextMessageHeaderField header (name @ CHR '':'' # val @ LF # rest)
         :: ('x failure + MessageHeader) \<times> istream)
        = (Inr (header\<lparr>contentLength := decimal_value ds\<rparr>), rest)"
  proof
    assume h: "trimView val = ds @ junk \<and> ds \<noteq> [] \<and> (\<forall>c \<in> set ds. is_digit c)
        \<and> (junk = [] \<or> \<not> is_digit (hd junk)) \<and> decimal_value ds \<le> SIZE_MAX"
    then have "from_chars (ds @ junk) = Some (decimal_value ds)"
      by (intro from_chars_leading_digits) blast+
    with h assms(4)
    show "(readNextMessageHeaderField header (name @ CHR '':'' # val @ LF # rest)
         :: ('x failure + MessageHeader) \<times> istream)
        = (Inr (header\<lparr>contentLength := decimal_value ds\<rparr>), rest)"
      by (simp add: field_with_colon [OF assms(1-3)])
  qed
qed

theorem content_length_conversion_witness:
  "(readNextMessageHeaderField \<lparr>contentLength = 7, contentType = ''t''\<rparr>
      (''Content-Length: abc'' @ [CR, LF] @ ''rest'') :: (unit failure + MessageHeader) \<times> istream)
     = (Inr \<lparr>contentLength = 7, contentType = ''t''\<rparr>, ''rest'')
   \<and> (readNextMessageHeaderField \<lparr>contentLength = 7, contentType = ''t''\<rparr>
      (''Content-Length: 3.5'' @ [CR, LF] @ ''rest'') :: (unit failure + MessageHeader) \<times> istream)
     = (Inr \<lparr>contentLength = 3, contentType = ''t''\<rparr>, ''rest'')"
  using content_length_conversion [where 'x = unit and name = "''Content-Length''"
      and val = "'' abc'' @ [CR]" and header = "\<lparr>contentLength = 7, contentType = ''t''\<rparr>"
      and rest = "''rest''" and ds = "[]" and junk = "[]"]
    content_length_conversion [where 'x = unit and name = "''Content-Length''"
      and val = "'' 3.5'' @ [CR]" and header = "\<lparr>contentLength = 7, contentType = ''t''\<rparr>"
      and rest = "''rest''" and ds = "''3''" and junk = "''.5''"]
  by (simp add: trimView_def isspace_def is_digit_def decimal_value_def digit_value_def
        SIZE_MAX_def)

text \<open>A number above \<open>SIZE_MAX\<close>, here \<open>2\<^sup>6\<^sup>4\<close>, leaves the length as it was.\<close>

lemma length_out_of_range_ignored:
  "(readNextMessageHeaderField \<lparr>contentLength = 7, contentType = ''t''\<rparr>
      (''Content-Length: 18446744073709551616'' @ [CR, LF] @ ''rest'')
        :: (unit failure + MessageHeader) \<times> istream)
     = (Inr \<lparr>contentLength = 7, contentType = ''t''\<rparr>, ''rest'')"
  by (simp add: readNextMessageHeaderField_def peek_def getline_def trimView_def isspace_def
        is_digit_def from_chars_def decimal_value_def digit_value_def SIZE_MAX_def Let_def)

end
